theory Spec2Isabelle
  imports Main "HOL-Library.Multiset" "HOL-Library.Word"
begin

section \<open>Time\<close>

text \<open>
  A Go \<^verbatim>\<open>time.Time\<close> is modelled by the instant it denotes: the number of nanoseconds
  since the zero Time (January 1, year 1, 00:00:00 UTC). The operations the monitor uses
  (\<^verbatim>\<open>UTC\<close>, \<^verbatim>\<open>Truncate\<close>, \<^verbatim>\<open>Equal\<close>, \<^verbatim>\<open>After\<close>, \<^verbatim>\<open>Before\<close>, \<^verbatim>\<open>IsZero\<close>, \<^verbatim>\<open>Add\<close>, \<^verbatim>\<open>Unix\<close>)
  depend on the instant only; the location matters to \<^verbatim>\<open>Format\<close> alone, whose
  result is kept symbolic below. A \<^verbatim>\<open>time.Duration\<close> is a number of nanoseconds.
  Go keeps the seconds of a Time and the nanoseconds of a Duration in an \<^verbatim>\<open>int64\<close>.
  The instants and durations of the model are integers, and where the code computes
  in \<^verbatim>\<open>int64\<close> (\<^verbatim>\<open>time.Unix\<close>, \<^verbatim>\<open>Unix\<close>, the product of a number of seconds and
  \<^verbatim>\<open>time.Second\<close>, \<^verbatim>\<open>Add\<close>) the model computes on 64-bit words, which wrap as Go's
  \<^verbatim>\<open>int64\<close> does, or saturates as \<^verbatim>\<open>Add\<close> does. Go's \<^verbatim>\<open>int\<close> has 64 bits on every
  platform the program is built for (amd64 and arm64).
\<close>

type_synonym Time = int
type_synonym Duration = int
type_synonym int64 = "64 word"

definition maxInt64 :: int where
  "maxInt64 = 9223372036854775807"

definition minInt64 :: int where
  "minInt64 = - 9223372036854775808"

definition Second :: Duration where
  "Second = 1000000000"

definition Minute :: Duration where
  "Minute = 60 * Second"

definition Hour :: Duration where
  "Hour = 60 * Minute"

definition zeroTime :: Time where
  "zeroTime = 0"

definition IsZero :: "Time \<Rightarrow> bool" where
  "IsZero t = (t = 0)"

definition UTC :: "Time \<Rightarrow> Time" where
  "UTC t = t"

text \<open>
  \<^verbatim>\<open>Truncate\<close> rounds the time down to a multiple of \<open>d\<close> since the zero Time, and
  returns the time unchanged when \<open>d \<le> 0\<close>. Go computes the remainder so that it lies
  in \<open>[0, d)\<close> also for instants before the zero Time, which is what \<open>mod\<close> on
  \<open>int\<close> gives.
\<close>

definition Truncate :: "Time \<Rightarrow> Duration \<Rightarrow> Time" where
  "Truncate t d = (if d \<le> 0 then t else t - t mod d)"

definition Equal :: "Time \<Rightarrow> Time \<Rightarrow> bool" where
  "Equal t u = (t = u)"

definition After :: "Time \<Rightarrow> Time \<Rightarrow> bool" where
  "After t u = (u < t)"

definition Before :: "Time \<Rightarrow> Time \<Rightarrow> bool" where
  "Before t u = (t < u)"

text \<open>
  \<^verbatim>\<open>Add\<close> splits the sum into seconds and nanoseconds (\<^verbatim>\<open>addSec\<close>); when the seconds
  leave the \<^verbatim>\<open>int64\<close> range they stop at \<open>2\<^sup>6\<^sup>3 - 1\<close> or at \<open>- (2\<^sup>6\<^sup>3 - 1)\<close>.
\<close>

definition Add :: "Time \<Rightarrow> Duration \<Rightarrow> Time" where
  "Add t d =
     (let sec = (t + d) div Second; nsec = (t + d) mod Second
      in if maxInt64 < sec then maxInt64 * Second + nsec
         else if sec < minInt64 then - maxInt64 * Second + nsec
         else t + d)"

text \<open>
  \<^verbatim>\<open>time.Duration(n) * time.Second\<close> for a Go \<^verbatim>\<open>int\<close>: the product is taken in
  \<^verbatim>\<open>int64\<close> and wraps.
\<close>

definition seconds :: "int64 \<Rightarrow> Duration" where
  "seconds n = sint (n * 1000000000)"

text \<open>Seconds between the zero Time and the Unix epoch (Go's \<^verbatim>\<open>unixToInternal\<close>).\<close>

definition unixToInternal :: int64 where
  "unixToInternal = 62135596800"

text \<open>
  \<^verbatim>\<open>time.Unix(sec, 0)\<close> stores \<^verbatim>\<open>sec + unixToInternal\<close>, and \<^verbatim>\<open>t.Unix()\<close> returns the
  seconds of \<open>t\<close> plus \<^verbatim>\<open>internalToUnix\<close>; both sums are taken in \<^verbatim>\<open>int64\<close> and wrap.
\<close>

definition time_Unix :: "int64 \<Rightarrow> Time" where
  "time_Unix sec = sint (sec + unixToInternal) * Second"

definition Time_Unix :: "Time \<Rightarrow> int64" where
  "Time_Unix t = word_of_int (t div Second) - unixToInternal"

text \<open>
  Three notions of the specification that the code below never calls. The UTC calendar
  day of an instant is the number of whole days since the zero Time (which is a
  midnight UTC; Go's days all have 86400 seconds). The instant that a number of Unix
  seconds denotes, and the time from one instant to another, are exact.
\<close>

definition utcDay :: "Time \<Rightarrow> int" where
  "utcDay t = t div (24 * Hour)"

definition unixInstant :: "int \<Rightarrow> Time" where
  "unixInstant sec = (sec + 62135596800) * Second"

definition timeFrom :: "Time \<Rightarrow> Time \<Rightarrow> Duration" where
  "timeFrom u t = t - u"

section \<open>Errors\<close>

text \<open>
  One constructor per error the code builds; a wrapping \<^verbatim>\<open>fmt.Errorf("...: %w", err)\<close>
  carries the wrapped error. \<open>LibError\<close> stands for an error value that comes from a
  library call (HTTP transport, JSON decoding, file system, bot API).

  A type assertion \<^verbatim>\<open>itemMap[key].(string)\<close> on a value that is not a string panics.
  Nothing in the program recovers from a panic, so every function on the way up ends
  with it: a call either panics or returns.
\<close>

datatype panic = NotAString string

datatype 'a outcome = Panicked panic | Returned 'a

datatype error =
    LibError string
  | FailedToCreateRequest error
  | RequestFailed error
  | ApiRequestFailed int
  | FailedToDecodeResponse error
  | FailedToGetSubfolders string error
  | SnapshotsFolderNotFound string "string list"
  | FailedToGetSnapshotFiles string error
  | NoTokenExpirySet
  | FailedToRefreshToken error
  | NoRefreshTokenAvailable
  | TokenRefreshFailedStatus int
  | FailedToDecodeTokenResponse error
  | TokenRefreshFailed string string
  | TelegramClientNotInitialized
  | TelegramBotNotInitialized
  | FailedToSendTelegramMessage error

section \<open>Data\<close>

record Folder =
  Folder_ID :: string
  Folder_Name :: string
  Folder_Size :: int

record FileInfo =
  File_ID :: string
  File_Name :: string
  File_Size :: int
  CreatedTime :: Time
  ModifiedTime :: Time

text \<open>
  One element of \<^verbatim>\<open>DriveResponse.Value\<close>. An element that is not a JSON object is
  skipped by the code. Of an object the code reads: whether the key \<^verbatim>\<open>folder\<close> is
  present with a non-null value, whether the key \<^verbatim>\<open>file\<close> is present, \<^verbatim>\<open>id\<close> and
  \<^verbatim>\<open>name\<close> (\<open>Some s\<close> when the value is the string \<open>s\<close>, \<open>None\<close> when the key is
  missing or its value is not a string), \<^verbatim>\<open>size\<close> when it is a number (already
  converted to an integer), and the two timestamps, \<open>Some t\<close> when the field is a string
  that \<^verbatim>\<open>time.Parse(time.RFC3339, _)\<close> accepts as the instant \<open>t\<close>.
\<close>

record ItemMap =
  item_folder :: bool
  item_file :: bool
  item_id :: "string option"
  item_name :: "string option"
  item_size :: "int option"
  item_createdDateTime :: "Time option"
  item_lastModifiedDateTime :: "Time option"

datatype item = NotAnObject | Object ItemMap

datatype http_body = BadJSON error | Decoded "item list"

datatype http_outcome =
    NewRequestError error
  | DoError error
  | Response int http_body

record TokenResponse =
  resp_AccessToken :: string
  resp_RefreshToken :: string
  resp_ExpiresIn :: int64
  resp_TokenType :: string
  resp_Scope :: string
  resp_Error :: string
  resp_ErrorDescription :: string

datatype token_body = BadTokenJSON error | DecodedToken TokenResponse

datatype token_outcome =
    PostFormError error
  | TokenResponded int token_body

record Token =
  Token_AccessToken :: string
  Token_RefreshToken :: string
  Token_TokenType :: string
  Token_Expiry :: Time

record OneDriveConfig =
  AccessToken :: string
  RefreshToken :: string
  TokenExpiry :: int64
  MonitorPaths :: "string list"

record TelegramConfig =
  BotToken :: string
  ChatID :: int

record MonitoringConfig =
  CheckInterval :: int
  Enabled :: bool

record Config =
  OneDrive :: OneDriveConfig
  Telegram :: TelegramConfig
  Monitoring :: MonitoringConfig

text \<open>
  The text of a Telegram message is determined by the function that formats it and by
  its arguments, so a message is kept as that pair. The last-backup label of an alert
  is the literal \<^verbatim>\<open>"Unknown"\<close> or \<^verbatim>\<open>t.Format("2006-01-02 15:04:05")\<close>.
\<close>

datatype label = Unknown | Formatted Time

datatype message =
    BackupAlert string string label
  | BackupSuccess string string nat
  | SummaryReport nat nat nat "string list"

text \<open>The bot handle of the Telegram client; \<open>None\<close> is the nil pointer.\<close>

datatype BotAPI = BotAPI string

record TelegramClient =
  bot :: "BotAPI option"
  chatID :: int

record Client =
  accessToken :: string
  baseURL :: string

record BackupStatus =
  ClientName :: string
  FolderPath :: string
  HasBackup :: bool
  FileCount :: nat
  LastBackup :: Time
  Error :: "error option"

text \<open>
  The monitor: its configuration and its Telegram client (\<open>None\<close> is the nil pointer
  that \<^verbatim>\<open>telegram.New\<close> returns when the bot cannot be created). The authenticator
  holds an HTTP client only, and the stop channel and wait group belong to the
  scheduling loop.
\<close>

record Monitor =
  config :: Config
  telegram :: "TelegramClient option"

section \<open>The outside world\<close>

text \<open>
  Everything the monitor does not compute itself is an interaction with the outside:
  reading the clock, a request to the Graph API, a request to the token endpoint,
  writing the configuration file, sending a Telegram message. The world answers the
  \<open>n\<close>-th interaction of a run through the function for its kind, applied to \<open>n\<close> and
  to what the program sends; \<open>tick\<close> counts the interactions so far and \<open>events\<close>
  records, in order, every request and message the program sends or tries to send
  (with the bearer token and the URL, the refresh token, the configuration written,
  the chat and the message). Log output is not modelled.
\<close>

datatype event =
    GraphRequest string string
  | TokenRequest string
  | ConfigSaved Config
  | TelegramSent int message

record world =
  clock :: "nat \<Rightarrow> Time"
  graph :: "nat \<Rightarrow> string \<Rightarrow> string \<Rightarrow> http_outcome"
  token_endpoint :: "nat \<Rightarrow> string \<Rightarrow> token_outcome"
  config_file :: "nat \<Rightarrow> Config \<Rightarrow> error option"
  bot_api :: "nat \<Rightarrow> int \<Rightarrow> message \<Rightarrow> error option"
  tick :: nat
  events :: "event list"

definition is_storage :: "event \<Rightarrow> bool" where
  "is_storage e = (case e of GraphRequest _ _ \<Rightarrow> True | _ \<Rightarrow> False)"

definition is_notification :: "event \<Rightarrow> bool" where
  "is_notification e = (case e of TelegramSent _ _ \<Rightarrow> True | _ \<Rightarrow> False)"

definition is_refresh :: "event \<Rightarrow> bool" where
  "is_refresh e = (case e of TokenRequest _ \<Rightarrow> True | _ \<Rightarrow> False)"

text \<open>\<^verbatim>\<open>time.Now()\<close>.\<close>

definition Now :: "world \<Rightarrow> Time \<times> world" where
  "Now w = (clock w (tick w), w\<lparr>tick := Suc (tick w)\<rparr>)"

section \<open>The OneDrive client\<close>

definition NewClient :: "string \<Rightarrow> Client" where
  "NewClient tok = \<lparr>accessToken = tok, baseURL = ''https://graph.microsoft.com/v1.0''\<rparr>"

text \<open>
  \<^verbatim>\<open>makeRequest\<close> (always called with method GET and no body): the request carries
  the bearer token; a response with status 400 or more is an error.
\<close>

definition makeRequest :: "Client \<Rightarrow> string \<Rightarrow> world \<Rightarrow> (error + http_body) \<times> world" where
  "makeRequest c url w =
     (let w' = w\<lparr>tick := Suc (tick w),
                  events := events w @ [GraphRequest (accessToken c) url]\<rparr>
      in case graph w (tick w) (accessToken c) url of
           NewRequestError e \<Rightarrow> (Inl (FailedToCreateRequest e), w\<lparr>tick := Suc (tick w)\<rparr>)
         | DoError e \<Rightarrow> (Inl (RequestFailed e), w')
         | Response code body \<Rightarrow>
             if code \<ge> 400 then (Inl (ApiRequestFailed code), w') else (Inr body, w'))"

definition childrenURL :: "Client \<Rightarrow> string \<Rightarrow> string" where
  "childrenURL c folderID = baseURL c @ ''/me/drive/items/'' @ folderID @ ''/children''"

text \<open>
  The loops of \<^verbatim>\<open>GetSubfolders\<close> and \<^verbatim>\<open>GetFolderContents\<close> over the decoded items.
  For an item that is kept, \<^verbatim>\<open>id\<close> is asserted to be a string, then \<^verbatim>\<open>name\<close>; the
  first assertion that fails ends the loop with a panic.
\<close>

fun foldersOf :: "item list \<Rightarrow> Folder list outcome" where
  "foldersOf [] = Returned []"
| "foldersOf (NotAnObject # items) = foldersOf items"
| "foldersOf (Object m # items) =
     (if item_folder m
      then (case item_id m of
              None \<Rightarrow> Panicked (NotAString ''id'')
            | Some i \<Rightarrow>
                (case item_name m of
                   None \<Rightarrow> Panicked (NotAString ''name'')
                 | Some n \<Rightarrow>
                     (case foldersOf items of
                        Panicked p \<Rightarrow> Panicked p
                      | Returned folders \<Rightarrow>
                          Returned
                            (\<lparr>Folder_ID = i, Folder_Name = n,
                              Folder_Size = (case item_size m of Some s \<Rightarrow> s | None \<Rightarrow> 0)\<rparr>
                             # folders))))
      else foldersOf items)"

fun filesOf :: "item list \<Rightarrow> FileInfo list outcome" where
  "filesOf [] = Returned []"
| "filesOf (NotAnObject # items) = filesOf items"
| "filesOf (Object m # items) =
     (if item_file m
      then (case item_id m of
              None \<Rightarrow> Panicked (NotAString ''id'')
            | Some i \<Rightarrow>
                (case item_name m of
                   None \<Rightarrow> Panicked (NotAString ''name'')
                 | Some n \<Rightarrow>
                     (case filesOf items of
                        Panicked p \<Rightarrow> Panicked p
                      | Returned files \<Rightarrow>
                          Returned
                            (\<lparr>File_ID = i, File_Name = n,
                              File_Size = (case item_size m of Some s \<Rightarrow> s | None \<Rightarrow> 0),
                              CreatedTime =
                                (case item_createdDateTime m of Some t \<Rightarrow> t | None \<Rightarrow> zeroTime),
                              ModifiedTime =
                                (case item_lastModifiedDateTime m of
                                   Some t \<Rightarrow> t | None \<Rightarrow> zeroTime)\<rparr>
                             # files))))
      else filesOf items)"

definition GetSubfolders ::
  "Client \<Rightarrow> string \<Rightarrow> world \<Rightarrow> (error + Folder list) outcome \<times> world" where
  "GetSubfolders c folderID w =
     (case makeRequest c (childrenURL c folderID) w of
        (Inl err, w1) \<Rightarrow> (Returned (Inl err), w1)
      | (Inr (BadJSON err), w1) \<Rightarrow> (Returned (Inl (FailedToDecodeResponse err)), w1)
      | (Inr (Decoded items), w1) \<Rightarrow>
          (case foldersOf items of
             Panicked p \<Rightarrow> (Panicked p, w1)
           | Returned folders \<Rightarrow> (Returned (Inr folders), w1)))"

definition GetFolderContents ::
  "Client \<Rightarrow> string \<Rightarrow> world \<Rightarrow> (error + FileInfo list) outcome \<times> world" where
  "GetFolderContents c folderID w =
     (case makeRequest c (childrenURL c folderID) w of
        (Inl err, w1) \<Rightarrow> (Returned (Inl err), w1)
      | (Inr (BadJSON err), w1) \<Rightarrow> (Returned (Inl (FailedToDecodeResponse err)), w1)
      | (Inr (Decoded items), w1) \<Rightarrow>
          (case filesOf items of
             Panicked p \<Rightarrow> (Panicked p, w1)
           | Returned files \<Rightarrow> (Returned (Inr files), w1)))"

text \<open>The search for the folder named \<^verbatim>\<open>snapshots\<close>: the identifier of the first one, else the empty string.\<close>

fun snapshotsFolderID :: "Folder list \<Rightarrow> string" where
  "snapshotsFolderID [] = ''''"
| "snapshotsFolderID (folder # subfolders) =
     (if Folder_Name folder = ''snapshots'' then Folder_ID folder
      else snapshotsFolderID subfolders)"

definition GetAllSnapshots ::
  "Client \<Rightarrow> string \<Rightarrow> world \<Rightarrow> (error + FileInfo list) outcome \<times> world" where
  "GetAllSnapshots c folderID w =
     (case GetSubfolders c folderID w of
        (Panicked p, w1) \<Rightarrow> (Panicked p, w1)
      | (Returned (Inl err), w1) \<Rightarrow> (Returned (Inl (FailedToGetSubfolders folderID err)), w1)
      | (Returned (Inr subfolders), w1) \<Rightarrow>
          if snapshotsFolderID subfolders = ''''
          then (Returned (Inl (SnapshotsFolderNotFound folderID (map Folder_Name subfolders))),
                w1)
          else (case GetFolderContents c (snapshotsFolderID subfolders) w1 of
                  (Panicked p, w2) \<Rightarrow> (Panicked p, w2)
                | (Returned (Inl err), w2) \<Rightarrow>
                    (Returned (Inl (FailedToGetSnapshotFiles (snapshotsFolderID subfolders) err)),
                     w2)
                | (Returned (Inr files), w2) \<Rightarrow> (Returned (Inr files), w2)))"

text \<open>The loop of \<^verbatim>\<open>CheckTodayBackups\<close> that collects the files whose day is \<open>today\<close>.\<close>

fun todayFiles :: "Time \<Rightarrow> FileInfo list \<Rightarrow> FileInfo list" where
  "todayFiles today [] = []"
| "todayFiles today (file # allFiles) =
     (if Equal (Truncate (UTC (CreatedTime file)) (24 * Hour)) today
      then file # todayFiles today allFiles
      else todayFiles today allFiles)"

text \<open>
  \<^verbatim>\<open>CheckTodayBackups\<close> returns the triple the Go function returns: on an error
  \<open>(False, [], Some err)\<close> (Go's \<^verbatim>\<open>false, nil, err\<close>).
\<close>

definition CheckTodayBackups ::
  "Client \<Rightarrow> string \<Rightarrow> world \<Rightarrow> (bool \<times> FileInfo list \<times> error option) outcome \<times> world" where
  "CheckTodayBackups c folderID w =
     (case GetAllSnapshots c folderID w of
        (Panicked p, w1) \<Rightarrow> (Panicked p, w1)
      | (Returned (Inl err), w1) \<Rightarrow> (Returned (False, [], Some err), w1)
      | (Returned (Inr allFiles), w1) \<Rightarrow>
          (case Now w1 of
             (now, w2) \<Rightarrow>
               (let today = Truncate (UTC now) (24 * Hour);
                    recent = todayFiles today allFiles
                in (Returned (length recent > 0, recent, None), w2))))"

section \<open>The authenticator\<close>

text \<open>
  \<^verbatim>\<open>Authenticator.RefreshToken\<close>: without a refresh token it fails before any request;
  otherwise it posts to the token endpoint and builds the new token, whose expiry is
  the time read after the response plus the lifetime the response gives.
\<close>

definition Authenticator_RefreshToken :: "Token \<Rightarrow> world \<Rightarrow> (error + Token) \<times> world" where
  "Authenticator_RefreshToken token w =
     (if Token_RefreshToken token = '''' then (Inl NoRefreshTokenAvailable, w)
      else
        (let w1 = w\<lparr>tick := Suc (tick w),
                     events := events w @ [TokenRequest (Token_RefreshToken token)]\<rparr>
         in case token_endpoint w (tick w) (Token_RefreshToken token) of
              PostFormError err \<Rightarrow> (Inl (FailedToRefreshToken err), w1)
            | TokenResponded code body \<Rightarrow>
                if code \<noteq> 200 then (Inl (TokenRefreshFailedStatus code), w1)
                else (case body of
                        BadTokenJSON err \<Rightarrow> (Inl (FailedToDecodeTokenResponse err), w1)
                      | DecodedToken tokenResp \<Rightarrow>
                          if resp_Error tokenResp \<noteq> ''''
                          then (Inl (TokenRefreshFailed (resp_Error tokenResp)
                                       (resp_ErrorDescription tokenResp)), w1)
                          else (case Now w1 of
                                  (now, w2) \<Rightarrow>
                                    (Inr \<lparr>Token_AccessToken = resp_AccessToken tokenResp,
                                          Token_RefreshToken = resp_RefreshToken tokenResp,
                                          Token_TokenType = resp_TokenType tokenResp,
                                          Token_Expiry = Add now (seconds (resp_ExpiresIn tokenResp))\<rparr>,
                                     w2)))))"

section \<open>The configuration file\<close>

text \<open>\<^verbatim>\<open>Config.Save\<close> marshals, encrypts and writes the file; its outcome is the world's.\<close>

definition Save :: "Config \<Rightarrow> world \<Rightarrow> error option \<times> world" where
  "Save cfg w =
     (config_file w (tick w) cfg,
      w\<lparr>tick := Suc (tick w), events := events w @ [ConfigSaved cfg]\<rparr>)"

section \<open>The Telegram client\<close>

definition SendMessage :: "TelegramClient \<Rightarrow> message \<Rightarrow> world \<Rightarrow> error option \<times> world" where
  "SendMessage c msg w =
     (case bot c of
        None \<Rightarrow> (Some TelegramBotNotInitialized, w)
      | Some b \<Rightarrow>
          (let w1 = w\<lparr>tick := Suc (tick w),
                       events := events w @ [TelegramSent (chatID c) msg]\<rparr>
           in case bot_api w (tick w) (chatID c) msg of
                Some err \<Rightarrow> (Some (FailedToSendTelegramMessage err), w1)
              | None \<Rightarrow> (None, w1)))"

definition SendBackupAlert ::
  "TelegramClient \<Rightarrow> string \<Rightarrow> string \<Rightarrow> label \<Rightarrow> world \<Rightarrow> error option \<times> world" where
  "SendBackupAlert c clientName folderPath lastBackupTime w =
     SendMessage c (BackupAlert clientName folderPath lastBackupTime) w"

definition SendSummaryReport ::
  "TelegramClient \<Rightarrow> nat \<Rightarrow> nat \<Rightarrow> nat \<Rightarrow> string list \<Rightarrow> world \<Rightarrow> error option \<times> world" where
  "SendSummaryReport c totalClients successCnt failedCnt failedNames w =
     SendMessage c (SummaryReport totalClients successCnt failedCnt failedNames) w"

section \<open>The monitor\<close>

text \<open>The loop of \<^verbatim>\<open>checkClientBackup\<close> that finds the most recent creation time.\<close>

fun latestBackup :: "Time \<Rightarrow> FileInfo list \<Rightarrow> Time" where
  "latestBackup latest [] = latest"
| "latestBackup latest (file # allFiles) =
     latestBackup (if After (CreatedTime file) latest then CreatedTime file else latest) allFiles"

definition checkClientBackup ::
  "Client \<Rightarrow> string \<Rightarrow> string \<Rightarrow> world \<Rightarrow> BackupStatus outcome \<times> world" where
  "checkClientBackup client folderID clientName w =
     (let status = \<lparr>ClientName = clientName, FolderPath = folderID, HasBackup = False,
                    FileCount = 0, LastBackup = zeroTime, Error = None\<rparr>
      in case CheckTodayBackups client folderID w of
           (Panicked p, w1) \<Rightarrow> (Panicked p, w1)
         | (Returned (hasBackup, recentFiles, Some err), w1) \<Rightarrow>
             (Returned (status\<lparr>Error := Some err\<rparr>), w1)
         | (Returned (hasBackup, recentFiles, None), w1) \<Rightarrow>
             (let status1 = status\<lparr>HasBackup := hasBackup, FileCount := length recentFiles\<rparr>
              in case GetAllSnapshots client folderID w1 of
                   (Panicked p, w2) \<Rightarrow> (Panicked p, w2)
                 | (Returned (Inl err), w2) \<Rightarrow> (Returned status1, w2)
                 | (Returned (Inr allFiles), w2) \<Rightarrow>
                     (Returned (status1\<lparr>LastBackup := latestBackup zeroTime allFiles\<rparr>), w2)))"

text \<open>
  The local variables of \<^verbatim>\<open>CheckOnce\<close> that its two loops update. The two counters,
  like \<open>FileCount\<close>, are Go integers that only ever count elements of a slice, so
  they are natural numbers here.
\<close>

record aggregate =
  statuses :: "BackupStatus list"
  successCount :: nat
  failedCount :: nat
  failedClients :: "string list"

definition emptyAggregate :: aggregate where
  "emptyAggregate = \<lparr>statuses = [], successCount = 0, failedCount = 0, failedClients = []\<rparr>"

text \<open>The body of the inner loop after the status is known.\<close>

definition record_status :: "BackupStatus \<Rightarrow> aggregate \<Rightarrow> aggregate" where
  "record_status status a =
     (let a1 = a\<lparr>statuses := statuses a @ [status]\<rparr>
      in if Error status \<noteq> None
         then a1\<lparr>failedCount := failedCount a1 + 1,
                 failedClients := failedClients a1 @ [ClientName status]\<rparr>
         else if HasBackup status
         then a1\<lparr>successCount := successCount a1 + 1\<rparr>
         else a1\<lparr>failedCount := failedCount a1 + 1,
                 failedClients := failedClients a1 @ [ClientName status]\<rparr>)"

text \<open>
  The inner loop of \<^verbatim>\<open>CheckOnce\<close>, over the client folders of one monitored path. A
  loop returns \<open>None\<close> when it ran to its end and \<open>Some p\<close> when a call in it
  panicked, together with the values the local variables had at that point.
\<close>

fun checkClients ::
  "Client \<Rightarrow> Folder list \<Rightarrow> aggregate \<Rightarrow> world \<Rightarrow> panic option \<times> aggregate \<times> world" where
  "checkClients client [] a w = (None, a, w)"
| "checkClients client (subfolder # subfolders) a w =
     (case checkClientBackup client (Folder_ID subfolder) (Folder_Name subfolder) w of
        (Panicked p, w1) \<Rightarrow> (Some p, a, w1)
      | (Returned status, w1) \<Rightarrow> checkClients client subfolders (record_status status a) w1)"

text \<open>The outer loop of \<^verbatim>\<open>CheckOnce\<close>, over the monitored paths.\<close>

fun checkPaths ::
  "Client \<Rightarrow> string list \<Rightarrow> aggregate \<Rightarrow> world \<Rightarrow> panic option \<times> aggregate \<times> world" where
  "checkPaths client [] a w = (None, a, w)"
| "checkPaths client (folderID # paths) a w =
     (case GetSubfolders client folderID w of
        (Panicked p, w1) \<Rightarrow> (Some p, a, w1)
      | (Returned (Inl err), w1) \<Rightarrow> checkPaths client paths a w1
      | (Returned (Inr subfolders), w1) \<Rightarrow>
          (case checkClients client subfolders a w1 of
             (Some p, a1, w2) \<Rightarrow> (Some p, a1, w2)
           | (None, a1, w2) \<Rightarrow> checkPaths client paths a1 w2))"

definition lastBackupStr :: "Time \<Rightarrow> label" where
  "lastBackupStr t = (if \<not> IsZero t then Formatted t else Unknown)"

text \<open>The alert loop of \<^verbatim>\<open>sendNotifications\<close>; a failed send is logged and the loop goes on.\<close>

fun sendAlerts :: "TelegramClient \<Rightarrow> BackupStatus list \<Rightarrow> world \<Rightarrow> world" where
  "sendAlerts tg [] w = w"
| "sendAlerts tg (status # sts) w =
     (if \<not> HasBackup status
      then (case SendBackupAlert tg (ClientName status) (FolderPath status)
                   (lastBackupStr (LastBackup status)) w of
              (err, w1) \<Rightarrow> sendAlerts tg sts w1)
      else sendAlerts tg sts w)"

definition sendNotifications ::
  "Monitor \<Rightarrow> BackupStatus list \<Rightarrow> nat \<Rightarrow> nat \<Rightarrow> string list \<Rightarrow> world \<Rightarrow> error option \<times> world" where
  "sendNotifications m sts successCnt failedCnt failedNames w =
     (case telegram m of
        None \<Rightarrow> (Some TelegramClientNotInitialized, w)
      | Some tg \<Rightarrow>
          (case SendSummaryReport tg (length sts) successCnt failedCnt failedNames
                  (sendAlerts tg sts w) of
             (Some err, w2) \<Rightarrow> (Some err, w2)
           | (None, w2) \<Rightarrow> (None, w2)))"

definition refreshTokenIfNeeded :: "Monitor \<Rightarrow> world \<Rightarrow> error option \<times> Monitor \<times> world" where
  "refreshTokenIfNeeded m w =
     (if TokenExpiry (OneDrive (config m)) = 0 then (Some NoTokenExpirySet, m, w)
      else
        (let expiry = time_Unix (TokenExpiry (OneDrive (config m)))
         in case Now w of
              (now, w1) \<Rightarrow>
                if Before now (Add expiry (- 10 * Minute)) then (None, m, w1)
                else
                  (case Authenticator_RefreshToken
                          \<lparr>Token_AccessToken = AccessToken (OneDrive (config m)),
                           Token_RefreshToken = RefreshToken (OneDrive (config m)),
                           Token_TokenType = '''',
                           Token_Expiry = expiry\<rparr> w1 of
                     (Inl err, w2) \<Rightarrow> (Some (FailedToRefreshToken err), m, w2)
                   | (Inr newToken, w2) \<Rightarrow>
                       (let m1 = m\<lparr>config := (config m)\<lparr>OneDrive := (OneDrive (config m))
                                    \<lparr>AccessToken := Token_AccessToken newToken,
                                     RefreshToken := Token_RefreshToken newToken,
                                     TokenExpiry := Time_Unix (Token_Expiry newToken)\<rparr>\<rparr>\<rparr>
                        in case Save (config m1) w2 of
                             (err, w3) \<Rightarrow> (None, m1, w3)))))"

definition CheckOnce :: "Monitor \<Rightarrow> world \<Rightarrow> error option outcome \<times> Monitor \<times> world" where
  "CheckOnce m w =
     (case refreshTokenIfNeeded m w of
        (Some err, m1, w1) \<Rightarrow> (Returned (Some (FailedToRefreshToken err)), m1, w1)
      | (None, m1, w1) \<Rightarrow>
          (case checkPaths (NewClient (AccessToken (OneDrive (config m1))))
                  (MonitorPaths (OneDrive (config m1))) emptyAggregate w1 of
             (Some p, a, w2) \<Rightarrow> (Panicked p, m1, w2)
           | (None, a, w2) \<Rightarrow>
               (case sendNotifications m1 (statuses a) (successCount a) (failedCount a)
                       (failedClients a) w2 of
                  (err, w3) \<Rightarrow> (Returned None, m1, w3))))"


section \<open>Notions of the specification\<close>

text \<open>
  A status counts as a success when it carries no error and reports a fresh backup.
  An aggregate is consistent when its counters and its failed-client list are what
  the specification derives from the statuses.
\<close>

definition succeeded :: "BackupStatus \<Rightarrow> bool" where
  "succeeded status = (Error status = None \<and> HasBackup status)"

definition consistent :: "aggregate \<Rightarrow> bool" where
  "consistent a =
     (successCount a = length (filter succeeded (statuses a)) \<and>
      failedCount a = length (filter (\<lambda>status. \<not> succeeded status) (statuses a)) \<and>
      failedClients a = map ClientName (filter (\<lambda>status. \<not> succeeded status) (statuses a)))"

definition errored_is_stale :: "BackupStatus \<Rightarrow> bool" where
  "errored_is_stale status =
     (Error status = None \<or> (\<not> HasBackup status \<and> FileCount status = 0))"

definition is_summary :: "event \<Rightarrow> bool" where
  "is_summary e = (case e of TelegramSent _ (SummaryReport _ _ _ _) \<Rightarrow> True | _ \<Rightarrow> False)"

text \<open>
  The Graph API gives every drive item a string \<^verbatim>\<open>id\<close> and a string \<^verbatim>\<open>name\<close>. A
  world keeps to that when, in every response it can give, each decoded item that is
  a folder or a file has both.
\<close>

definition item_ok :: "item \<Rightarrow> bool" where
  "item_ok it =
     (case it of
        NotAnObject \<Rightarrow> True
      | Object m \<Rightarrow>
          (if item_folder m \<or> item_file m then item_id m \<noteq> None \<and> item_name m \<noteq> None
           else True))"

definition wellformed_graph :: "world \<Rightarrow> bool" where
  "wellformed_graph w =
     (\<forall>n tok url code items.
        graph w n tok url = Response code (Decoded items) \<longrightarrow> list_all item_ok items)"
section \<open>An example installation\<close>

text \<open>
  The monitored path \<^verbatim>\<open>p1\<close> has three clients: \<^verbatim>\<open>alpha\<close> has a snapshot from one
  nanosecond before midnight UTC and one from a second after it, \<^verbatim>\<open>beta\<close> has a
  snapshot from three days earlier and one whose creation time the response does not
  give, \<^verbatim>\<open>gamma\<close> has no \<^verbatim>\<open>snapshots\<close> folder. The client folder \<^verbatim>\<open>d\<close> holds a
  single snapshot, without a creation time. Any other request, such as listing the
  path \<^verbatim>\<open>p0\<close>, times out. The clock stands at one minute past that midnight
  (2024-04-25 00:01:00 UTC), the token endpoint cannot be reached, and saving the
  configuration and sending messages work.
\<close>

definition T0 :: Time where
  "T0 = 739000 * (24 * Hour)"

definition ex_file :: "string \<Rightarrow> Time option \<Rightarrow> item" where
  "ex_file n t =
     Object \<lparr>item_folder = False, item_file = True, item_id = Some n, item_name = Some n,
             item_size = Some 10, item_createdDateTime = t, item_lastModifiedDateTime = t\<rparr>"

definition ex_folder :: "string \<Rightarrow> string \<Rightarrow> item" where
  "ex_folder i n =
     Object \<lparr>item_folder = True, item_file = False, item_id = Some i, item_name = Some n,
             item_size = None, item_createdDateTime = None, item_lastModifiedDateTime = None\<rparr>"

definition ex_graph :: "nat \<Rightarrow> string \<Rightarrow> string \<Rightarrow> http_outcome" where
  "ex_graph n tok url =
     (if url = childrenURL (NewClient tok) ''p1''
      then Response 200 (Decoded [ex_folder ''a'' ''alpha'', ex_folder ''b'' ''beta'',
                                  ex_folder ''c'' ''gamma''])
      else if url = childrenURL (NewClient tok) ''a''
      then Response 200 (Decoded [ex_folder ''as'' ''snapshots''])
      else if url = childrenURL (NewClient tok) ''b''
      then Response 200 (Decoded [ex_folder ''bd'' ''data'', ex_folder ''bs'' ''snapshots''])
      else if url = childrenURL (NewClient tok) ''c''
      then Response 200 (Decoded [ex_folder ''cd'' ''data''])
      else if url = childrenURL (NewClient tok) ''d''
      then Response 200 (Decoded [ex_folder ''ds'' ''snapshots''])
      else if url = childrenURL (NewClient tok) ''as''
      then Response 200 (Decoded [ex_file ''f1'' (Some (T0 - 1)),
                                  ex_file ''f2'' (Some (T0 + Second)), NotAnObject])
      else if url = childrenURL (NewClient tok) ''bs''
      then Response 200 (Decoded [ex_file ''g1'' (Some (T0 - 3 * 24 * Hour)),
                                  ex_file ''g2'' None])
      else if url = childrenURL (NewClient tok) ''ds''
      then Response 200 (Decoded [ex_file ''h1'' None])
      else DoError (LibError ''timeout''))"

definition ex_world :: world where
  "ex_world =
     \<lparr>clock = (\<lambda>n. T0 + Minute), graph = ex_graph,
      token_endpoint = (\<lambda>n r. PostFormError (LibError ''offline'')),
      config_file = (\<lambda>n c. None), bot_api = (\<lambda>n c m. None), tick = 0, events = []\<rparr>"

text \<open>The same world with a bot API that refuses every alert, and one that refuses everything.\<close>

definition ex_world_no_alerts :: world where
  "ex_world_no_alerts =
     ex_world\<lparr>bot_api := (\<lambda>n c msg. case msg of BackupAlert _ _ _ \<Rightarrow> Some (LibError ''refused'')
                                       | _ \<Rightarrow> None)\<rparr>"

definition ex_world_no_bot :: world where
  "ex_world_no_bot = ex_world\<lparr>bot_api := (\<lambda>n c msg. Some (LibError ''refused''))\<rparr>"

text \<open>A world whose every listing holds one folder, with an identifier and without a name.\<close>

definition ex_world_unnamed :: world where
  "ex_world_unnamed =
     ex_world\<lparr>graph := (\<lambda>n tok url.
       Response 200 (Decoded
         [Object \<lparr>item_folder = True, item_file = False, item_id = Some ''x'',
                  item_name = None, item_size = None, item_createdDateTime = None,
                  item_lastModifiedDateTime = None\<rparr>]))\<rparr>"

definition ex_f1 :: FileInfo where
  "ex_f1 = \<lparr>File_ID = ''f1'', File_Name = ''f1'', File_Size = 10,
            CreatedTime = T0 - 1, ModifiedTime = T0 - 1\<rparr>"

definition ex_f2 :: FileInfo where
  "ex_f2 = \<lparr>File_ID = ''f2'', File_Name = ''f2'', File_Size = 10,
            CreatedTime = T0 + Second, ModifiedTime = T0 + Second\<rparr>"

definition ex_g1 :: FileInfo where
  "ex_g1 = \<lparr>File_ID = ''g1'', File_Name = ''g1'', File_Size = 10,
            CreatedTime = T0 - 3 * 24 * Hour, ModifiedTime = T0 - 3 * 24 * Hour\<rparr>"

definition ex_g2 :: FileInfo where
  "ex_g2 = \<lparr>File_ID = ''g2'', File_Name = ''g2'', File_Size = 10,
            CreatedTime = zeroTime, ModifiedTime = zeroTime\<rparr>"

definition ex_h1 :: FileInfo where
  "ex_h1 = \<lparr>File_ID = ''h1'', File_Name = ''h1'', File_Size = 10,
            CreatedTime = zeroTime, ModifiedTime = zeroTime\<rparr>"

definition ex_url :: "string \<Rightarrow> string" where
  "ex_url folderID = childrenURL (NewClient ''tok'') folderID"

text \<open>The world after the two requests that list the snapshots of \<^verbatim>\<open>alpha\<close>.\<close>

definition ex_world_a :: world where
  "ex_world_a =
     ex_world\<lparr>tick := 2, events :=
       [GraphRequest ''tok'' ''https://graph.microsoft.com/v1.0/me/drive/items/a/children'',
        GraphRequest ''tok'' ''https://graph.microsoft.com/v1.0/me/drive/items/as/children'']\<rparr>"

text \<open>The statuses, the aggregate and the requests of a cycle over the paths \<^verbatim>\<open>p0\<close> and \<^verbatim>\<open>p1\<close>.\<close>

definition ex_alpha :: BackupStatus where
  "ex_alpha = \<lparr>ClientName = ''alpha'', FolderPath = ''a'', HasBackup = True, FileCount = 1,
               LastBackup = T0 + Second, Error = None\<rparr>"

definition ex_beta :: BackupStatus where
  "ex_beta = \<lparr>ClientName = ''beta'', FolderPath = ''b'', HasBackup = False, FileCount = 0,
              LastBackup = T0 - 3 * 24 * Hour, Error = None\<rparr>"

definition ex_gamma :: BackupStatus where
  "ex_gamma = \<lparr>ClientName = ''gamma'', FolderPath = ''c'', HasBackup = False, FileCount = 0,
               LastBackup = zeroTime,
               Error = Some (SnapshotsFolderNotFound ''c'' [''data''])\<rparr>"

text \<open>The status of the client \<^verbatim>\<open>delta\<close>, whose one snapshot has no creation time.\<close>

definition ex_delta :: BackupStatus where
  "ex_delta = \<lparr>ClientName = ''delta'', FolderPath = ''d'', HasBackup = False, FileCount = 0,
               LastBackup = zeroTime, Error = None\<rparr>"

definition ex_aggregate :: aggregate where
  "ex_aggregate =
     \<lparr>statuses = [ex_alpha, ex_beta, ex_gamma], successCount = 1, failedCount = 2,
      failedClients = [''beta'', ''gamma'']\<rparr>"

definition ex_requests :: "event list" where
  "ex_requests =
     map (\<lambda>folderID. GraphRequest ''tok'' (ex_url folderID))
       [''p0'', ''p1'', ''a'', ''as'', ''a'', ''as'', ''b'', ''bs'', ''b'', ''bs'', ''c'']"

text \<open>
  Monitors over these paths, by the expiry of their token in Unix seconds (the clock
  stands at 1714003260) and by their Telegram client.
\<close>

definition ex_config :: "int64 \<Rightarrow> string list \<Rightarrow> Config" where
  "ex_config expiry paths =
     \<lparr>OneDrive = \<lparr>AccessToken = ''tok'', RefreshToken = ''ref'', TokenExpiry = expiry,
                  MonitorPaths = paths\<rparr>,
      Telegram = \<lparr>BotToken = ''bot'', ChatID = 42\<rparr>,
      Monitoring = \<lparr>CheckInterval = 60, Enabled = True\<rparr>\<rparr>"

definition ex_telegram :: TelegramClient where
  "ex_telegram = \<lparr>bot = Some (BotAPI ''bot''), chatID = 42\<rparr>"

definition ex_monitor :: "int64 \<Rightarrow> string list \<Rightarrow> Monitor" where
  "ex_monitor expiry paths = \<lparr>config = ex_config expiry paths, telegram = Some ex_telegram\<rparr>"

definition ex_monitor_nil :: "int64 \<Rightarrow> string list \<Rightarrow> Monitor" where
  "ex_monitor_nil expiry paths = \<lparr>config = ex_config expiry paths, telegram = None\<rparr>"

text \<open>The worlds after the freshness check of \<^verbatim>\<open>beta\<close> and after the listing that follows it.\<close>

definition ex_world_b :: world where
  "ex_world_b =
     ex_world\<lparr>tick := 3, events :=
       [GraphRequest ''tok'' (ex_url ''b''), GraphRequest ''tok'' (ex_url ''bs'')]\<rparr>"

definition ex_world_b2 :: world where
  "ex_world_b2 =
     ex_world\<lparr>tick := 5, events :=
       [GraphRequest ''tok'' (ex_url ''b''), GraphRequest ''tok'' (ex_url ''bs''),
        GraphRequest ''tok'' (ex_url ''b''), GraphRequest ''tok'' (ex_url ''bs'')]\<rparr>"

text \<open>The messages of a cycle over the paths \<^verbatim>\<open>p0\<close> and \<^verbatim>\<open>p1\<close>.\<close>

definition ex_sent :: "event list" where
  "ex_sent = [TelegramSent 42 (BackupAlert ''beta'' ''b'' (Formatted (T0 - 3 * 24 * Hour))),
              TelegramSent 42 (BackupAlert ''gamma'' ''c'' Unknown),
              TelegramSent 42 (SummaryReport 3 1 2 [''beta'', ''gamma''])]"
section \<open>Unfolding the model on the example\<close>

lemmas ex_defs = T0_def ex_file_def ex_folder_def ex_graph_def ex_world_def
  Hour_def Minute_def Second_def zeroTime_def

lemmas client_defs = NewClient_def childrenURL_def makeRequest_def GetSubfolders_def
  GetFolderContents_def GetAllSnapshots_def CheckTodayBackups_def Now_def UTC_def
  Truncate_def Equal_def After_def

lemmas monitor_defs = checkClientBackup_def record_status_def emptyAggregate_def

lemmas ex_monitor_defs = ex_monitor_def ex_monitor_nil_def ex_config_def ex_telegram_def

lemmas ex_time_defs = Before_def Add_def time_Unix_def unixToInternal_def maxInt64_def
  minInt64_def T0_def Hour_def Minute_def Second_def

section \<open>Freshness\<close>

lemma day_length_pos: "0 < 24 * Hour"
  by (simp add: Hour_def Minute_def Second_def)

lemma Truncate_day_eq_iff:
  "Equal (Truncate (UTC t) (24 * Hour)) (Truncate (UTC u) (24 * Hour)) \<longleftrightarrow> utcDay t = utcDay u"
proof -
  define d where "d = 24 * Hour"
  have d: "0 < d" using day_length_pos by (simp add: d_def)
  have tr: "\<And>x. x - x mod d = d * (x div d)"
    by (simp add: minus_mod_eq_mult_div)
  have "(t - t mod d = u - u mod d) \<longleftrightarrow> (t div d = u div d)"
    using d by (simp add: tr)
  then show ?thesis
    using d by (simp add: Equal_def Truncate_def UTC_def utcDay_def d_def)
qed

lemma todayFiles_filter:
  "todayFiles (Truncate (UTC now) (24 * Hour)) allFiles =
     filter (\<lambda>file. utcDay (CreatedTime file) = utcDay now) allFiles"
  by (induction allFiles) (simp_all add: Truncate_day_eq_iff)

section \<open>Events and answers left alone by the storage calls\<close>

lemma Now_events: "events (snd (Now w)) = events w"
  by (simp add: Now_def)

lemma makeRequest_filter:
  assumes "\<And>t u. \<not> P (GraphRequest t u)"
  shows "filter P (events (snd (makeRequest c url w))) = filter P (events w)"
  using assms by (simp add: makeRequest_def Let_def split: http_outcome.splits)

lemma makeRequest_graph: "graph (snd (makeRequest c url w)) = graph w"
  by (simp add: makeRequest_def Let_def split: http_outcome.splits)

lemma GetSubfolders_filter:
  assumes "\<And>t u. \<not> P (GraphRequest t u)"
  shows "filter P (events (snd (GetSubfolders c folderID w))) = filter P (events w)"
  using makeRequest_filter [where P = P, OF assms, of c "childrenURL c folderID" w]
  by (auto simp: GetSubfolders_def split: prod.splits sum.splits http_body.splits outcome.splits)

lemma GetSubfolders_graph: "graph (snd (GetSubfolders c folderID w)) = graph w"
  using makeRequest_graph [of c "childrenURL c folderID" w]
  by (auto simp: GetSubfolders_def split: prod.splits sum.splits http_body.splits outcome.splits)

lemma GetFolderContents_filter:
  assumes "\<And>t u. \<not> P (GraphRequest t u)"
  shows "filter P (events (snd (GetFolderContents c folderID w))) = filter P (events w)"
  using makeRequest_filter [where P = P, OF assms, of c "childrenURL c folderID" w]
  by (auto simp: GetFolderContents_def split: prod.splits sum.splits http_body.splits outcome.splits)

lemma GetFolderContents_graph: "graph (snd (GetFolderContents c folderID w)) = graph w"
  using makeRequest_graph [of c "childrenURL c folderID" w]
  by (auto simp: GetFolderContents_def split: prod.splits sum.splits http_body.splits outcome.splits)

lemma GetAllSnapshots_filter:
  assumes "\<And>t u. \<not> P (GraphRequest t u)"
  shows "filter P (events (snd (GetAllSnapshots c folderID w))) = filter P (events w)"
proof -
  obtain r w1 where g: "GetSubfolders c folderID w = (r, w1)" by (cases "GetSubfolders c folderID w")
  have e1: "filter P (events w1) = filter P (events w)"
    using GetSubfolders_filter [where P = P, OF assms, of c folderID w] g by simp
  have e2: "filter P (events (snd (GetFolderContents c x w1))) = filter P (events w)" for x
    using GetFolderContents_filter [where P = P, OF assms, of c x w1] e1 by simp
  show ?thesis
    using g e1 e2
    by (auto simp: GetAllSnapshots_def split: prod.splits sum.splits outcome.splits)
       (metis snd_conv)+
qed

lemma GetAllSnapshots_graph: "graph (snd (GetAllSnapshots c folderID w)) = graph w"
proof -
  obtain r w1 where g: "GetSubfolders c folderID w = (r, w1)" by (cases "GetSubfolders c folderID w")
  have e1: "graph w1 = graph w"
    using GetSubfolders_graph [of c folderID w] g by simp
  have e2: "graph (snd (GetFolderContents c x w1)) = graph w" for x
    using GetFolderContents_graph [of c x w1] e1 by simp
  show ?thesis
    using g e1 e2
    by (auto simp: GetAllSnapshots_def split: prod.splits sum.splits outcome.splits)
       (metis snd_conv)+
qed

lemma CheckTodayBackups_filter:
  assumes "\<And>t u. \<not> P (GraphRequest t u)"
  shows "filter P (events (snd (CheckTodayBackups c folderID w))) = filter P (events w)"
  using GetAllSnapshots_filter [where P = P, OF assms, of c folderID w]
  by (auto simp: CheckTodayBackups_def Now_def Let_def split: prod.splits sum.splits outcome.splits)

lemma CheckTodayBackups_graph: "graph (snd (CheckTodayBackups c folderID w)) = graph w"
  using GetAllSnapshots_graph [of c folderID w]
  by (auto simp: CheckTodayBackups_def Now_def Let_def split: prod.splits sum.splits outcome.splits)

lemma checkClientBackup_filter:
  assumes "\<And>t u. \<not> P (GraphRequest t u)"
  shows "filter P (events (snd (checkClientBackup c folderID name w))) = filter P (events w)"
proof -
  obtain r w1 where t: "CheckTodayBackups c folderID w = (r, w1)" by (cases "CheckTodayBackups c folderID w")
  have e1: "filter P (events w1) = filter P (events w)"
    using CheckTodayBackups_filter [where P = P, OF assms, of c folderID w] t by simp
  have e2: "filter P (events (snd (GetAllSnapshots c folderID w1))) = filter P (events w1)"
    by (rule GetAllSnapshots_filter [where P = P, OF assms])
  show ?thesis using t e1 e2
    by (auto simp: checkClientBackup_def Let_def split: prod.splits sum.splits option.splits outcome.splits)
qed

lemma checkClientBackup_graph: "graph (snd (checkClientBackup c folderID name w)) = graph w"
proof -
  obtain r w1 where t: "CheckTodayBackups c folderID w = (r, w1)" by (cases "CheckTodayBackups c folderID w")
  have e1: "graph w1 = graph w"
    using CheckTodayBackups_graph [of c folderID w] t by simp
  have e2: "graph (snd (GetAllSnapshots c folderID w1)) = graph w1"
    by (rule GetAllSnapshots_graph)
  show ?thesis using t e1 e2
    by (auto simp: checkClientBackup_def Let_def split: prod.splits sum.splits option.splits outcome.splits)
qed

lemma checkClients_filter:
  assumes "\<And>t u. \<not> P (GraphRequest t u)"
  shows "filter P (events (snd (snd (checkClients c subfolders a w)))) = filter P (events w)"
proof (induction subfolders arbitrary: a w)
  case Nil
  show ?case by simp
next
  case (Cons subfolder subfolders)
  show ?case
    using checkClientBackup_filter [where P = P, OF assms, of c "Folder_ID subfolder" "Folder_Name subfolder" w]
    by (auto simp: Cons.IH split: prod.splits outcome.splits)
qed

lemma checkClients_graph: "graph (snd (snd (checkClients c subfolders a w))) = graph w"
proof (induction subfolders arbitrary: a w)
  case Nil
  show ?case by simp
next
  case (Cons subfolder subfolders)
  show ?case
    using checkClientBackup_graph [of c "Folder_ID subfolder" "Folder_Name subfolder" w]
    by (auto simp: Cons.IH split: prod.splits outcome.splits)
qed

lemma checkPaths_filter:
  assumes "\<And>t u. \<not> P (GraphRequest t u)"
  shows "filter P (events (snd (snd (checkPaths c paths a w)))) = filter P (events w)"
proof (induction paths arbitrary: a w)
  case Nil
  show ?case by simp
next
  case (Cons folderID paths)
  obtain r w1 where g: "GetSubfolders c folderID w = (r, w1)" by (cases "GetSubfolders c folderID w")
  have e1: "filter P (events w1) = filter P (events w)"
    using GetSubfolders_filter [where P = P, OF assms, of c folderID w] g by simp
  have e2: "filter P (events (snd (snd (checkClients c x a w1)))) = filter P (events w)" for x
    using checkClients_filter [where P = P, OF assms, of c x a w1] e1 by simp
  show ?case
    using g e1 e2
    by (auto simp: Cons.IH split: prod.splits sum.splits option.splits outcome.splits)
       (metis snd_conv)+
qed

lemma checkPaths_graph: "graph (snd (snd (checkPaths c paths a w))) = graph w"
proof (induction paths arbitrary: a w)
  case Nil
  show ?case by simp
next
  case (Cons folderID paths)
  obtain r w1 where g: "GetSubfolders c folderID w = (r, w1)" by (cases "GetSubfolders c folderID w")
  have e1: "graph w1 = graph w"
    using GetSubfolders_graph [of c folderID w] g by simp
  have e2: "graph (snd (snd (checkClients c x a w1))) = graph w" for x
    using checkClients_graph [of c x a w1] e1 by simp
  show ?case
    using g e1 e2
    by (auto simp: Cons.IH split: prod.splits sum.splits option.splits outcome.splits)
       (metis snd_conv)+
qed

section \<open>The aggregate of a cycle\<close>

lemma statuses_record_status: "statuses (record_status status a) = statuses a @ [status]"
  by (simp add: record_status_def Let_def)

lemma consistent_empty: "consistent emptyAggregate"
  by (simp add: consistent_def emptyAggregate_def)

lemma consistent_record_status: "consistent a \<Longrightarrow> consistent (record_status status a)"
  by (cases "Error status") (simp_all add: consistent_def record_status_def Let_def succeeded_def)

lemma checkClients_consistent:
  "consistent a \<Longrightarrow> consistent (fst (snd (checkClients c subfolders a w)))"
  by (induction subfolders arbitrary: a w)
     (simp_all add: consistent_record_status split: prod.splits outcome.splits)

lemma checkPaths_consistent:
  "consistent a \<Longrightarrow> consistent (fst (snd (checkPaths c paths a w)))"
proof (induction paths arbitrary: a w)
  case Nil
  then show ?case by simp
next
  case (Cons folderID paths)
  have "consistent (fst (snd (checkClients c x a w1)))" for x w1
    using Cons.prems by (rule checkClients_consistent)
  then have k: "checkClients c x a w1 = (p, a1, w2) \<Longrightarrow> consistent a1" for x w1 p a1 w2
    by (metis fst_conv snd_conv)
  show ?case
    using Cons.prems
    by (auto simp: Cons.IH dest: k split: prod.splits sum.splits option.splits outcome.splits)
qed

lemma checkClientBackup_errored_is_stale:
  "checkClientBackup c folderID name w = (Returned status, w') \<Longrightarrow> errored_is_stale status"
  by (auto simp: checkClientBackup_def errored_is_stale_def Let_def
           split: prod.splits sum.splits option.splits outcome.splits)

lemma checkClients_errored_is_stale:
  "list_all errored_is_stale (statuses a) \<Longrightarrow>
   list_all errored_is_stale (statuses (fst (snd (checkClients c subfolders a w))))"
proof (induction subfolders arbitrary: a w)
  case Nil
  then show ?case by simp
next
  case (Cons subfolder subfolders)
  obtain r w1 where k: "checkClientBackup c (Folder_ID subfolder) (Folder_Name subfolder) w = (r, w1)"
    by (cases "checkClientBackup c (Folder_ID subfolder) (Folder_Name subfolder) w")
  show ?case
  proof (cases r)
    case (Panicked p)
    then show ?thesis using k Cons.prems by simp
  next
    case (Returned status)
    then have "errored_is_stale status"
      using k by (simp add: checkClientBackup_errored_is_stale)
    then have "list_all errored_is_stale (statuses (record_status status a))"
      using Cons.prems by (simp add: statuses_record_status)
    then show ?thesis using k Returned Cons.IH by simp
  qed
qed

lemma checkPaths_errored_is_stale:
  "list_all errored_is_stale (statuses a) \<Longrightarrow>
   list_all errored_is_stale (statuses (fst (snd (checkPaths c paths a w))))"
proof (induction paths arbitrary: a w)
  case Nil
  then show ?case by simp
next
  case (Cons folderID paths)
  have "list_all errored_is_stale (statuses (fst (snd (checkClients c x a w1))))" for x w1
    using Cons.prems by (rule checkClients_errored_is_stale)
  then have k: "checkClients c x a w1 = (p, a1, w2) \<Longrightarrow> list_all errored_is_stale (statuses a1)"
    for x w1 p a1 w2
    by (metis fst_conv snd_conv)
  show ?case
    using Cons.prems
    by (auto simp: Cons.IH dest: k split: prod.splits sum.splits option.splits outcome.splits)
qed

text \<open>Whether a loop panics, and the world it leaves, do not depend on the aggregate it starts from.\<close>

lemma checkClients_world:
  "fst (checkClients c subfolders a w) = fst (checkClients c subfolders b w)
   \<and> snd (snd (checkClients c subfolders a w)) = snd (snd (checkClients c subfolders b w))"
  by (induction subfolders arbitrary: a b w) (simp_all split: prod.splits outcome.splits)

lemma checkClients_statuses:
  "statuses (fst (snd (checkClients c subfolders a w))) =
     statuses a @ statuses (fst (snd (checkClients c subfolders emptyAggregate w)))"
proof (induction subfolders arbitrary: a w)
  case Nil
  show ?case by (simp add: emptyAggregate_def)
next
  case (Cons subfolder subfolders)
  obtain r w1 where k: "checkClientBackup c (Folder_ID subfolder) (Folder_Name subfolder) w = (r, w1)"
    by (cases "checkClientBackup c (Folder_ID subfolder) (Folder_Name subfolder) w")
  show ?case
  proof (cases r)
    case (Panicked p)
    then show ?thesis using k by (simp add: emptyAggregate_def)
  next
    case (Returned status)
    have "statuses (fst (snd (checkClients c subfolders (record_status status a) w1))) =
          statuses a @ [status] @ statuses (fst (snd (checkClients c subfolders emptyAggregate w1)))"
      using Cons.IH [of "record_status status a" w1] by (simp add: statuses_record_status)
    moreover have "statuses (fst (snd (checkClients c subfolders (record_status status emptyAggregate) w1))) =
          [status] @ statuses (fst (snd (checkClients c subfolders emptyAggregate w1)))"
      using Cons.IH [of "record_status status emptyAggregate" w1]
      by (simp add: statuses_record_status emptyAggregate_def)
    ultimately show ?thesis using k Returned by simp
  qed
qed

lemma checkPaths_world:
  "fst (checkPaths c paths a w) = fst (checkPaths c paths b w)
   \<and> snd (snd (checkPaths c paths a w)) = snd (snd (checkPaths c paths b w))"
proof (induction paths arbitrary: a b w)
  case Nil
  show ?case by simp
next
  case (Cons folderID paths)
  obtain r w1 where g: "GetSubfolders c folderID w = (r, w1)" by (cases "GetSubfolders c folderID w")
  show ?case
  proof (cases r)
    case (Panicked p)
    then show ?thesis using g by simp
  next
    case (Returned x)
    show ?thesis
    proof (cases x)
      case (Inl err)
      then show ?thesis using g Returned Cons.IH [of a w1 b] by simp
    next
      case (Inr subfolders)
      obtain p a1 w2 where k: "checkClients c subfolders a w1 = (p, a1, w2)"
        by (cases "checkClients c subfolders a w1" rule: prod_cases3)
      obtain q b1 v2 where l: "checkClients c subfolders b w1 = (q, b1, v2)"
        by (cases "checkClients c subfolders b w1" rule: prod_cases3)
      have e: "q = p" "v2 = w2"
        using checkClients_world [of c subfolders a w1 b] k l by simp_all
      show ?thesis
        using g Returned Inr k l e Cons.IH [of a1 w2 b1] by (cases p) simp_all
    qed
  qed
qed

lemma checkPaths_statuses:
  "statuses (fst (snd (checkPaths c paths a w))) =
     statuses a @ statuses (fst (snd (checkPaths c paths emptyAggregate w)))"
proof (induction paths arbitrary: a w)
  case Nil
  show ?case by (simp add: emptyAggregate_def)
next
  case (Cons folderID paths)
  obtain r w1 where g: "GetSubfolders c folderID w = (r, w1)" by (cases "GetSubfolders c folderID w")
  show ?case
  proof (cases r)
    case (Panicked p)
    then show ?thesis using g by (simp add: emptyAggregate_def)
  next
    case (Returned x)
    show ?thesis
    proof (cases x)
      case (Inl err)
      then show ?thesis using g Returned Cons.IH [of a w1] by simp
    next
      case (Inr subfolders)
      obtain p a1 w2 where k: "checkClients c subfolders a w1 = (p, a1, w2)"
        by (cases "checkClients c subfolders a w1" rule: prod_cases3)
      obtain q e1 v2 where k0: "checkClients c subfolders emptyAggregate w1 = (q, e1, v2)"
        by (cases "checkClients c subfolders emptyAggregate w1" rule: prod_cases3)
      have w: "q = p" "v2 = w2"
        using checkClients_world [of c subfolders a w1 emptyAggregate] k k0 by simp_all
      have s: "statuses a1 = statuses a @ statuses e1"
        using checkClients_statuses [of c subfolders a w1] k k0 by simp
      have "statuses (fst (snd (checkPaths c paths a1 w2))) =
              statuses a1 @ statuses (fst (snd (checkPaths c paths emptyAggregate w2)))"
        by (rule Cons.IH)
      moreover have "statuses (fst (snd (checkPaths c paths e1 w2))) =
              statuses e1 @ statuses (fst (snd (checkPaths c paths emptyAggregate w2)))"
        by (rule Cons.IH)
      ultimately show ?thesis using g Returned Inr k k0 w s by (cases p) simp_all
    qed
  qed
qed

lemma checkPaths_append:
  "checkPaths c (paths @ rest) a w =
     (case checkPaths c paths a w of
        (Some p, a1, w1) \<Rightarrow> (Some p, a1, w1)
      | (None, a1, w1) \<Rightarrow> checkPaths c rest a1 w1)"
proof (induction paths arbitrary: a w)
  case Nil
  show ?case by simp
next
  case (Cons folderID paths)
  show ?case by (simp add: Cons.IH split: prod.splits sum.splits option.splits outcome.splits)
qed

section \<open>Responses that keep to the Graph API\<close>

lemma wellformed_graph_cong: "graph w' = graph w \<Longrightarrow> wellformed_graph w' = wellformed_graph w"
  by (simp add: wellformed_graph_def)

lemma foldersOf_returns: "list_all item_ok items \<Longrightarrow> \<exists>folders. foldersOf items = Returned folders"
proof (induction items rule: foldersOf.induct)
  case 1
  show ?case by simp
next
  case (2 items)
  then show ?case by simp
next
  case (3 m items)
  show ?case
  proof (cases "item_folder m")
    case True
    then obtain i n where k: "item_id m = Some i" "item_name m = Some n"
      using "3.prems" by (auto simp: item_ok_def)
    obtain folders where "foldersOf items = Returned folders"
      using "3.IH"(1) [OF True k] "3.prems" by auto
    then show ?thesis using True k by simp
  next
    case False
    then show ?thesis using "3.IH"(2) "3.prems" by simp
  qed
qed

lemma filesOf_returns: "list_all item_ok items \<Longrightarrow> \<exists>files. filesOf items = Returned files"
proof (induction items rule: filesOf.induct)
  case 1
  show ?case by simp
next
  case (2 items)
  then show ?case by simp
next
  case (3 m items)
  show ?case
  proof (cases "item_file m")
    case True
    then obtain i n where k: "item_id m = Some i" "item_name m = Some n"
      using "3.prems" by (auto simp: item_ok_def)
    obtain files where "filesOf items = Returned files"
      using "3.IH"(1) [OF True k] "3.prems" by auto
    then show ?thesis using True k by simp
  next
    case False
    then show ?thesis using "3.IH"(2) "3.prems" by simp
  qed
qed

lemma GetSubfolders_returns:
  assumes "wellformed_graph w"
  shows "\<exists>r. fst (GetSubfolders c folderID w) = Returned r"
proof -
  have "graph w n tok url = Response code (Decoded items) \<Longrightarrow> \<exists>folders. foldersOf items = Returned folders"
    for n tok url code items
    using assms foldersOf_returns by (auto simp: wellformed_graph_def)
  then show ?thesis
    by (fastforce simp: GetSubfolders_def makeRequest_def Let_def
          split: prod.splits sum.splits http_body.splits http_outcome.splits outcome.splits if_splits)
qed

lemma GetFolderContents_returns:
  assumes "wellformed_graph w"
  shows "\<exists>r. fst (GetFolderContents c folderID w) = Returned r"
proof -
  have "graph w n tok url = Response code (Decoded items) \<Longrightarrow> \<exists>files. filesOf items = Returned files"
    for n tok url code items
    using assms filesOf_returns by (auto simp: wellformed_graph_def)
  then show ?thesis
    by (fastforce simp: GetFolderContents_def makeRequest_def Let_def
          split: prod.splits sum.splits http_body.splits http_outcome.splits outcome.splits if_splits)
qed

lemma GetAllSnapshots_returns:
  assumes "wellformed_graph w"
  shows "\<exists>r. fst (GetAllSnapshots c folderID w) = Returned r"
proof -
  obtain r w1 where g: "GetSubfolders c folderID w = (r, w1)" by (cases "GetSubfolders c folderID w")
  obtain x where r: "r = Returned x"
    using GetSubfolders_returns [OF assms, of c folderID] g by auto
  have "wellformed_graph w1"
    using GetSubfolders_graph [of c folderID w] g assms by (simp add: wellformed_graph_def)
  then have f: "\<exists>y. fst (GetFolderContents c z w1) = Returned y" for z
    by (rule GetFolderContents_returns)
  show ?thesis
  proof (cases x)
    case (Inl err)
    then show ?thesis using g r by (simp add: GetAllSnapshots_def)
  next
    case (Inr subfolders)
    obtain y where "fst (GetFolderContents c (snapshotsFolderID subfolders) w1) = Returned y"
      using f by blast
    then show ?thesis
      using g r Inr by (cases y) (auto simp: GetAllSnapshots_def split: prod.splits)
  qed
qed

lemma checkClientBackup_returns:
  assumes "wellformed_graph w"
  shows "\<exists>status. fst (checkClientBackup c folderID name w) = Returned status"
proof -
  obtain r w1 where g: "GetAllSnapshots c folderID w = (r, w1)" by (cases "GetAllSnapshots c folderID w")
  obtain x where r: "r = Returned x"
    using GetAllSnapshots_returns [OF assms, of c folderID] g by auto
  have w1: "wellformed_graph w1"
    using GetAllSnapshots_graph [of c folderID w] g assms by (simp add: wellformed_graph_def)
  show ?thesis
  proof (cases x)
    case (Inl err)
    then show ?thesis using g r by (simp add: checkClientBackup_def CheckTodayBackups_def)
  next
    case (Inr allFiles)
    have "wellformed_graph (snd (Now w1))"
      using w1 by (simp add: Now_def wellformed_graph_def)
    then obtain y where "fst (GetAllSnapshots c folderID (snd (Now w1))) = Returned y"
      using GetAllSnapshots_returns by blast
    then show ?thesis
      using g r Inr
      by (cases y) (auto simp: checkClientBackup_def CheckTodayBackups_def Let_def split: prod.splits)
  qed
qed

lemma checkClients_returns:
  "wellformed_graph w \<Longrightarrow> fst (checkClients c subfolders a w) = None"
proof (induction subfolders arbitrary: a w)
  case Nil
  show ?case by simp
next
  case (Cons subfolder subfolders)
  obtain r w1 where k: "checkClientBackup c (Folder_ID subfolder) (Folder_Name subfolder) w = (r, w1)"
    by (cases "checkClientBackup c (Folder_ID subfolder) (Folder_Name subfolder) w")
  obtain status where r: "r = Returned status"
    using checkClientBackup_returns [OF Cons.prems, of c "Folder_ID subfolder" "Folder_Name subfolder"] k
    by auto
  have "wellformed_graph w1"
    using checkClientBackup_graph [of c "Folder_ID subfolder" "Folder_Name subfolder" w] k Cons.prems by (simp add: wellformed_graph_def)
  then show ?case using k r Cons.IH by simp
qed

lemma checkPaths_returns:
  "wellformed_graph w \<Longrightarrow> fst (checkPaths c paths a w) = None"
proof (induction paths arbitrary: a w)
  case Nil
  show ?case by simp
next
  case (Cons folderID paths)
  obtain r w1 where g: "GetSubfolders c folderID w = (r, w1)" by (cases "GetSubfolders c folderID w")
  obtain x where r: "r = Returned x"
    using GetSubfolders_returns [OF Cons.prems, of c folderID] g by auto
  have w1: "wellformed_graph w1"
    using GetSubfolders_graph [of c folderID w] g Cons.prems by (simp add: wellformed_graph_def)
  show ?case
  proof (cases x)
    case (Inl err)
    then show ?thesis using g r w1 Cons.IH by simp
  next
    case (Inr subfolders)
    obtain p a1 w2 where k: "checkClients c subfolders a w1 = (p, a1, w2)"
      by (cases "checkClients c subfolders a w1" rule: prod_cases3)
    have p: "p = None" using checkClients_returns [OF w1, of c subfolders a] k by simp
    have "wellformed_graph w2"
      using checkClients_graph [of c subfolders a w1] k w1 by (simp add: wellformed_graph_def)
    then show ?thesis using g r Inr k p Cons.IH by simp
  qed
qed

section \<open>The most recent backup\<close>

lemma Max_insert_max:
  "finite A \<Longrightarrow> Max (insert (max a b) A) = Max (insert (a::int) (insert b A))"
  by (cases "A = {}") (simp_all add: max.assoc)

lemma latestBackup_Max:
  "latestBackup latest allFiles = Max (insert latest (CreatedTime ` set allFiles))"
proof (induction allFiles arbitrary: latest)
  case Nil
  show ?case by simp
next
  case (Cons snapshot allFiles)
  have "Max (insert (max latest (CreatedTime snapshot)) (CreatedTime ` set allFiles)) =
        Max (insert latest (insert (CreatedTime snapshot) (CreatedTime ` set allFiles)))"
    by (rule Max_insert_max) simp
  moreover have "(if After (CreatedTime snapshot) latest then CreatedTime snapshot else latest) =
        max latest (CreatedTime snapshot)"
    by (simp add: After_def max_def)
  ultimately show ?case by (simp add: Cons.IH)
qed

lemma latestBackup_permutation:
  "mset allFiles' = mset allFiles \<Longrightarrow> latestBackup latest allFiles' = latestBackup latest allFiles"
proof -
  assume "mset allFiles' = mset allFiles"
  then have "set allFiles' = set allFiles" by (rule mset_eq_setD)
  then show ?thesis by (simp add: latestBackup_Max)
qed

section \<open>The refresh step and the notifications\<close>

lemma Authenticator_RefreshToken_filter:
  assumes "\<And>r. \<not> P (TokenRequest r)"
  shows "filter P (events (snd (Authenticator_RefreshToken token w))) = filter P (events w)"
  using assms
  by (simp add: Authenticator_RefreshToken_def Let_def Now_def split: token_outcome.splits token_body.splits)

lemma refreshTokenIfNeeded_monitor_on_error:
  "refreshTokenIfNeeded m w = (Some err, m1, w1) \<Longrightarrow> m1 = m"
  by (auto simp: refreshTokenIfNeeded_def Let_def Save_def split: if_splits prod.splits sum.splits)

lemma refreshTokenIfNeeded_telegram:
  "telegram (fst (snd (refreshTokenIfNeeded m w))) = telegram m"
  by (simp add: refreshTokenIfNeeded_def Let_def Save_def split: prod.splits sum.splits)

lemma refreshTokenIfNeeded_filter:
  assumes "\<And>r. \<not> P (TokenRequest r)" and "\<And>cfg. \<not> P (ConfigSaved cfg)"
  shows "filter P (events (snd (snd (refreshTokenIfNeeded m w)))) = filter P (events w)"
proof -
  obtain now w1 where n: "Now w = (now, w1)" by (cases "Now w")
  have e1: "events w1 = events w" using Now_events [of w] n by simp
  let ?tok = "\<lparr>Token_AccessToken = AccessToken (OneDrive (config m)),
               Token_RefreshToken = RefreshToken (OneDrive (config m)),
               Token_TokenType = '''',
               Token_Expiry = time_Unix (TokenExpiry (OneDrive (config m)))\<rparr>"
  obtain r w2 where a: "Authenticator_RefreshToken ?tok w1 = (r, w2)"
    by (cases "Authenticator_RefreshToken ?tok w1")
  have "filter P (events (snd (Authenticator_RefreshToken ?tok w1))) = filter P (events w1)"
    using assms(1) by (rule Authenticator_RefreshToken_filter [where P = P])
  then have e2: "filter P (events w2) = filter P (events w)"
    using a e1 by simp
  show ?thesis
    using n a e1 e2 assms(2)
    by (cases r) (simp_all add: refreshTokenIfNeeded_def Let_def Save_def)
qed

lemma sendAlerts_events:
  assumes "bot tg = Some b"
  shows "events (sendAlerts tg sts w) =
           events w @ map (\<lambda>status. TelegramSent (chatID tg)
                              (BackupAlert (ClientName status) (FolderPath status)
                                 (lastBackupStr (LastBackup status))))
                          (filter (\<lambda>status. \<not> HasBackup status) sts)"
  using assms
  by (induction sts arbitrary: w)
     (simp_all add: SendBackupAlert_def SendMessage_def Let_def split: option.splits)

lemma sendNotifications_events:
  assumes "telegram m = Some tg" and "bot tg = Some b"
  shows "events (snd (sendNotifications m sts successCnt failedCnt failedNames w)) =
           events w @ map (\<lambda>status. TelegramSent (chatID tg)
                              (BackupAlert (ClientName status) (FolderPath status)
                                 (lastBackupStr (LastBackup status))))
                          (filter (\<lambda>status. \<not> HasBackup status) sts)
                    @ [TelegramSent (chatID tg)
                         (SummaryReport (length sts) successCnt failedCnt failedNames)]"
  using assms sendAlerts_events [OF assms(2), of sts w]
  by (simp add: sendNotifications_def SendSummaryReport_def SendMessage_def Let_def
           split: option.splits prod.splits)

lemma failed_filter_eq:
  assumes "list_all errored_is_stale sts"
  shows "filter (\<lambda>status. Error status \<noteq> None \<or> \<not> HasBackup status) sts =
           filter (\<lambda>status. \<not> HasBackup status) sts"
    and "filter (\<lambda>status. \<not> succeeded status) sts = filter (\<lambda>status. \<not> HasBackup status) sts"
  using assms
  by (induction sts) (auto simp: errored_is_stale_def succeeded_def)

lemma refreshTokenIfNeeded_graph: "graph (snd (snd (refreshTokenIfNeeded m w))) = graph w"
  by (simp add: refreshTokenIfNeeded_def Authenticator_RefreshToken_def Let_def Save_def Now_def
        split: prod.splits sum.splits token_outcome.splits token_body.splits)

text \<open>
  The two ways of the refresh step once an expiry is recorded, by the test the code makes.
\<close>

lemma refreshTokenIfNeeded_cases:
  assumes "Now w = (now, w1)"
  shows "(TokenExpiry (OneDrive (config m)) = 0 \<longrightarrow>
            refreshTokenIfNeeded m w = (Some NoTokenExpirySet, m, w))
       \<and> (TokenExpiry (OneDrive (config m)) \<noteq> 0 \<longrightarrow>
            (refreshTokenIfNeeded m w = (None, m, w1) \<longleftrightarrow>
               Before now (Add (time_Unix (TokenExpiry (OneDrive (config m)))) (- 10 * Minute)))
          \<and> (\<not> Before now (Add (time_Unix (TokenExpiry (OneDrive (config m)))) (- 10 * Minute)) \<longrightarrow>
               fst (refreshTokenIfNeeded m w) =
                 (case fst (Authenticator_RefreshToken
                        \<lparr>Token_AccessToken = AccessToken (OneDrive (config m)),
                         Token_RefreshToken = RefreshToken (OneDrive (config m)),
                         Token_TokenType = '''',
                         Token_Expiry = time_Unix (TokenExpiry (OneDrive (config m)))\<rparr> w1) of
                    Inl err \<Rightarrow> Some (FailedToRefreshToken err)
                  | Inr newToken \<Rightarrow> None)
               \<and> (RefreshToken (OneDrive (config m)) \<noteq> '''' \<longrightarrow>
                    filter is_refresh (events (snd (snd (refreshTokenIfNeeded m w)))) =
                      filter is_refresh (events w) @ [TokenRequest (RefreshToken (OneDrive (config m)))])))"
proof -
  let ?tok = "\<lparr>Token_AccessToken = AccessToken (OneDrive (config m)),
               Token_RefreshToken = RefreshToken (OneDrive (config m)),
               Token_TokenType = '''',
               Token_Expiry = time_Unix (TokenExpiry (OneDrive (config m)))\<rparr>"
  let ?expiry = "time_Unix (TokenExpiry (OneDrive (config m)))"
  have e1: "events w1 = events w" and t1: "tick w1 = Suc (tick w)"
    using assms by (auto simp: Now_def)
  obtain r w2 where a: "Authenticator_RefreshToken ?tok w1 = (r, w2)"
    by (cases "Authenticator_RefreshToken ?tok w1")
  have tk: "tick w1 \<le> tick w2"
    using a by (auto simp: Authenticator_RefreshToken_def Let_def Now_def
                split: if_splits token_outcome.splits token_body.splits)
  have ev: "RefreshToken (OneDrive (config m)) \<noteq> '''' \<Longrightarrow>
      filter is_refresh (events w2) = filter is_refresh (events w) @ [TokenRequest (RefreshToken (OneDrive (config m)))]"
    using a e1 by (auto simp: Authenticator_RefreshToken_def Let_def Now_def is_refresh_def
                split: if_splits token_outcome.splits token_body.splits)
  have zero: "TokenExpiry (OneDrive (config m)) = 0 \<Longrightarrow>
            refreshTokenIfNeeded m w = (Some NoTokenExpirySet, m, w)"
    by (simp add: refreshTokenIfNeeded_def)
  have skip: "refreshTokenIfNeeded m w = (None, m, w1)"
    if "TokenExpiry (OneDrive (config m)) \<noteq> 0" "Before now (Add ?expiry (- 10 * Minute))"
    using that assms by (simp add: refreshTokenIfNeeded_def Let_def)
  have path: "refreshTokenIfNeeded m w \<noteq> (None, m, w1)
      \<and> fst (refreshTokenIfNeeded m w) =
           (case fst (Authenticator_RefreshToken ?tok w1) of
              Inl err \<Rightarrow> Some (FailedToRefreshToken err) | Inr newToken \<Rightarrow> None)
      \<and> (RefreshToken (OneDrive (config m)) \<noteq> '''' \<longrightarrow>
            filter is_refresh (events (snd (snd (refreshTokenIfNeeded m w)))) =
              filter is_refresh (events w) @ [TokenRequest (RefreshToken (OneDrive (config m)))])"
    if nz: "TokenExpiry (OneDrive (config m)) \<noteq> 0"
      and late: "\<not> Before now (Add ?expiry (- 10 * Minute))"
  proof (cases r)
    case (Inl err)
    then have "refreshTokenIfNeeded m w = (Some (FailedToRefreshToken err), m, w2)"
      using nz late assms a by (simp add: refreshTokenIfNeeded_def Let_def)
    then show ?thesis using Inl a ev by simp
  next
    case (Inr newToken)
    let ?m1 = "m\<lparr>config := (config m)\<lparr>OneDrive := (OneDrive (config m))
                                    \<lparr>AccessToken := Token_AccessToken newToken,
                                     RefreshToken := Token_RefreshToken newToken,
                                     TokenExpiry := Time_Unix (Token_Expiry newToken)\<rparr>\<rparr>\<rparr>"
    have res: "refreshTokenIfNeeded m w = (None, ?m1, snd (Save (config ?m1) w2))"
      using nz late assms a Inr
      by (simp add: refreshTokenIfNeeded_def Let_def split: prod.splits)
    have "tick (snd (Save (config ?m1) w2)) = Suc (tick w2)" by (simp add: Save_def)
    then have "snd (Save (config ?m1) w2) \<noteq> w1" using tk by auto
    moreover have "filter is_refresh (events (snd (Save (config ?m1) w2))) = filter is_refresh (events w2)"
      by (simp add: Save_def is_refresh_def)
    ultimately show ?thesis using res Inr a ev by simp
  qed
  show ?thesis
    using zero skip path by blast
qed

section \<open>Unix seconds that a Time can hold\<close>

lemma sint_unixToInternal: "sint unixToInternal = 62135596800"
  by (simp add: unixToInternal_def)

lemma time_Unix_in_range:
  assumes "sint sec + 62135596800 < 2 ^ 63"
  shows "time_Unix sec = unixInstant (sint sec)"
proof -
  have lo: "- (2 ^ 63) \<le> sint sec"
    using sint_ge [of sec] by simp
  have "sint (sec + unixToInternal) = signed_take_bit 63 (sint sec + 62135596800)"
    by (simp add: sint_word_ariths sint_unixToInternal)
  also have "\<dots> = sint sec + 62135596800"
    using lo assms by (intro signed_take_bit_int_eq_self) simp_all
  finally show ?thesis by (simp add: time_Unix_def unixInstant_def)
qed

lemma Add_margin_in_range:
  assumes "- (2 ^ 63) \<le> s" and "s + 62135596800 < 2 ^ 63"
  shows "Add (unixInstant s) (- 10 * Minute) = unixInstant s - 10 * Minute"
proof -
  have e: "unixInstant s + - 10 * Minute = (s + 62135596200) * Second"
    by (simp add: unixInstant_def Minute_def Second_def algebra_simps)
  have "(unixInstant s + - 10 * Minute) div Second = s + 62135596200"
    unfolding e by (simp add: Second_def)
  then show ?thesis
    using assms by (simp add: Add_def Let_def maxInt64_def minInt64_def)
qed

section \<open>The example cycle\<close>

lemma ex_cycle:
  assumes "graph w = ex_graph" and "clock w = (\<lambda>n. T0 + Minute)"
  shows "checkPaths (NewClient ''tok'') [''p0'', ''p1''] emptyAggregate w =
           (None, ex_aggregate, w\<lparr>tick := tick w + 13, events := events w @ ex_requests\<rparr>)"
  using assms
  by (simp add: ex_defs client_defs monitor_defs ex_aggregate_def ex_alpha_def ex_beta_def ex_gamma_def
        ex_requests_def ex_url_def)

lemma ex_run:
  "checkPaths (NewClient ''tok'') [''p0'', ''p1''] emptyAggregate ex_world =
     (None, ex_aggregate, ex_world\<lparr>tick := 13, events := ex_requests\<rparr>)"
  using ex_cycle [of ex_world] by (simp add: ex_world_def)

lemma ex_Now: "Now ex_world = (T0 + Minute, ex_world\<lparr>tick := 1\<rparr>)"
  by (simp add: Now_def ex_world_def)

section \<open>The claims\<close>

text \<open>
  Claim C1. When the snapshots of a client are listed and the clock is read, the files
  that \<^verbatim>\<open>CheckTodayBackups\<close> reports fresh are exactly the listed files whose creation
  time lies on the same UTC calendar day as the instant read, and the client has a
  backup exactly when there is such a file. A file of the previous UTC day is not
  fresh, however short the time since; a file of the current UTC day is fresh.
\<close>

theorem fresh_iff_same_utc_day:
  assumes "GetAllSnapshots c folderID w = (Returned (Inr allFiles), w1)"
    and "Now w1 = (now, w2)"
    and "CheckTodayBackups c folderID w = (Returned (hasBackup, recent, err), w')"
  shows "recent = filter (\<lambda>file. utcDay (CreatedTime file) = utcDay now) allFiles
       \<and> (hasBackup \<longleftrightarrow> (\<exists>file \<in> set allFiles. utcDay (CreatedTime file) = utcDay now))
       \<and> err = None
       \<and> (\<forall>file \<in> set allFiles. utcDay (CreatedTime file) = utcDay now - 1 \<longrightarrow> file \<notin> set recent)
       \<and> (\<forall>file \<in> set allFiles. utcDay (CreatedTime file) = utcDay now \<longrightarrow> file \<in> set recent)"
proof -
  have r: "recent = filter (\<lambda>file. utcDay (CreatedTime file) = utcDay now) allFiles"
    and h: "hasBackup = (0 < length recent)" and e: "err = None"
    using assms by (auto simp: CheckTodayBackups_def todayFiles_filter Let_def)
  have "hasBackup \<longleftrightarrow> (\<exists>file \<in> set allFiles. utcDay (CreatedTime file) = utcDay now)"
    using h r by (simp add: filter_empty_conv)
  then show ?thesis using r e by simp
qed

text \<open>
  On the example: of the two snapshots of \<^verbatim>\<open>alpha\<close>, the one created a minute and a
  nanosecond before the check, on the previous UTC day, is not fresh; the other is.
\<close>

theorem fresh_iff_same_utc_day_witness:
  "GetAllSnapshots (NewClient ''tok'') ''a'' ex_world = (Returned (Inr [ex_f1, ex_f2]), ex_world_a)
   \<and> Now ex_world_a = (T0 + Minute, ex_world_a\<lparr>tick := 3\<rparr>)
   \<and> CheckTodayBackups (NewClient ''tok'') ''a'' ex_world =
        (Returned (True, [ex_f2], None), ex_world_a\<lparr>tick := 3\<rparr>)
   \<and> utcDay (CreatedTime ex_f1) = utcDay (T0 + Minute) - 1
   \<and> timeFrom (CreatedTime ex_f1) (T0 + Minute) < 1 * Hour
   \<and> ex_f1 \<notin> set [ex_f2]
   \<and> utcDay (CreatedTime ex_f2) = utcDay (T0 + Minute)
   \<and> ex_f2 \<in> set [ex_f2]"
proof -
  have h1: "GetAllSnapshots (NewClient ''tok'') ''a'' ex_world = (Returned (Inr [ex_f1, ex_f2]), ex_world_a)"
    by (simp add: ex_defs client_defs ex_f1_def ex_f2_def ex_world_a_def)
  have h2: "Now ex_world_a = (T0 + Minute, ex_world_a\<lparr>tick := 3\<rparr>)"
    by (simp add: ex_defs Now_def ex_world_a_def)
  have h3: "CheckTodayBackups (NewClient ''tok'') ''a'' ex_world =
        (Returned (True, [ex_f2], None), ex_world_a\<lparr>tick := 3\<rparr>)"
    by (simp add: ex_defs client_defs ex_f1_def ex_f2_def ex_world_a_def)
  have d: "utcDay (CreatedTime ex_f1) = utcDay (T0 + Minute) - 1"
     "timeFrom (CreatedTime ex_f1) (T0 + Minute) < 1 * Hour"
     "utcDay (CreatedTime ex_f2) = utcDay (T0 + Minute)"
    by (simp_all add: utcDay_def timeFrom_def ex_defs ex_f1_def ex_f2_def)
  show ?thesis
    using fresh_iff_same_utc_day [OF h1 h2 h3] h1 h2 h3 d by simp
qed

text \<open>
  Claim C2. In every check cycle the success count and the failed count add up to the
  number of statuses produced, whatever mixture of errored, fresh and stale statuses
  the monitored paths give.
\<close>

theorem success_plus_failed_is_total:
  assumes "checkPaths client paths emptyAggregate w = (p, a, w')"
  shows "successCount a + failedCount a = length (statuses a)"
proof -
  have "consistent (fst (snd (checkPaths client paths emptyAggregate w)))"
    using consistent_empty by (rule checkPaths_consistent)
  then have c: "consistent a" using assms by simp
  have "length (filter succeeded (statuses a)) + length (filter (\<lambda>status. \<not> succeeded status) (statuses a))
          = length (statuses a)"
    by (rule sum_length_filter_compl)
  then show ?thesis using c by (simp add: consistent_def)
qed

text \<open>On the example: one fresh client, one stale, one errored.\<close>

theorem success_plus_failed_is_total_witness:
  "checkPaths (NewClient ''tok'') [''p0'', ''p1''] emptyAggregate ex_world =
     (None, ex_aggregate, ex_world\<lparr>tick := 13, events := ex_requests\<rparr>)
   \<and> successCount ex_aggregate = 1 \<and> failedCount ex_aggregate = 2
   \<and> length (statuses ex_aggregate) = 3
   \<and> successCount ex_aggregate + failedCount ex_aggregate = length (statuses ex_aggregate)"
  using success_plus_failed_is_total [OF ex_run] ex_run
  by (simp add: ex_aggregate_def)

text \<open>
  Claim C3. Every status of a cycle that carries an error reports no backup and no
  fresh file, its client is in the failed-client list, and the success count counts
  only statuses without an error. A client folder in which no folder is named
  \<^verbatim>\<open>snapshots\<close> gets such a status, and the loop adds it to the failed count and
  to the failed-client list.
\<close>

theorem errored_status_counts_as_failed:
  "(checkPaths client paths emptyAggregate w = (p, a, w') \<longrightarrow>
      status \<in> set (statuses a) \<longrightarrow> Error status \<noteq> None \<longrightarrow>
        \<not> HasBackup status \<and> FileCount status = 0
        \<and> ClientName status \<in> set (failedClients a)
        \<and> successCount a = length (filter (\<lambda>s. Error s = None \<and> HasBackup s) (statuses a)))
   \<and> (GetSubfolders client (Folder_ID subfolder) w0 = (Returned (Inr listing), w1) \<longrightarrow>
        ''snapshots'' \<notin> set (map Folder_Name listing) \<longrightarrow>
        checkClients client (subfolder # subfolders) a0 w0 =
          checkClients client subfolders
            (a0\<lparr>statuses := statuses a0 @
                   [\<lparr>ClientName = Folder_Name subfolder, FolderPath = Folder_ID subfolder,
                     HasBackup = False, FileCount = 0, LastBackup = zeroTime,
                     Error = Some (SnapshotsFolderNotFound (Folder_ID subfolder)
                                     (map Folder_Name listing))\<rparr>],
                 failedCount := failedCount a0 + 1,
                 failedClients := failedClients a0 @ [Folder_Name subfolder]\<rparr>) w1)"
proof (intro conjI impI)
  assume run: "checkPaths client paths emptyAggregate w = (p, a, w')"
    and mem: "status \<in> set (statuses a)" and err: "Error status \<noteq> None"
  have "list_all errored_is_stale (statuses (fst (snd (checkPaths client paths emptyAggregate w))))"
    by (rule checkPaths_errored_is_stale) (simp add: emptyAggregate_def)
  then have "errored_is_stale status"
    using run mem by (simp add: list_all_iff)
  then show "\<not> HasBackup status" and "FileCount status = 0"
    using err by (simp_all add: errored_is_stale_def)
  have "consistent (fst (snd (checkPaths client paths emptyAggregate w)))"
    using consistent_empty by (rule checkPaths_consistent)
  then have c: "consistent a" using run by simp
  have "\<not> succeeded status" using err by (simp add: succeeded_def)
  then have "ClientName status \<in> ClientName ` set (filter (\<lambda>s. \<not> succeeded s) (statuses a))"
    using mem by simp
  then show "ClientName status \<in> set (failedClients a)"
    using c by (simp add: consistent_def)
  show "successCount a = length (filter (\<lambda>s. Error s = None \<and> HasBackup s) (statuses a))"
    using c by (simp add: consistent_def succeeded_def [abs_def])
next
  assume g: "GetSubfolders client (Folder_ID subfolder) w0 = (Returned (Inr listing), w1)"
    and miss: "''snapshots'' \<notin> set (map Folder_Name listing)"
  have "snapshotsFolderID listing = ''''"
    using miss by (induction listing) auto
  then have "checkClientBackup client (Folder_ID subfolder) (Folder_Name subfolder) w0 =
      (Returned \<lparr>ClientName = Folder_Name subfolder, FolderPath = Folder_ID subfolder,
        HasBackup = False, FileCount = 0, LastBackup = zeroTime,
        Error = Some (SnapshotsFolderNotFound (Folder_ID subfolder) (map Folder_Name listing))\<rparr>, w1)"
    using g by (simp add: checkClientBackup_def CheckTodayBackups_def GetAllSnapshots_def)
  then show "checkClients client (subfolder # subfolders) a0 w0 =
          checkClients client subfolders
            (a0\<lparr>statuses := statuses a0 @
                   [\<lparr>ClientName = Folder_Name subfolder, FolderPath = Folder_ID subfolder,
                     HasBackup = False, FileCount = 0, LastBackup = zeroTime,
                     Error = Some (SnapshotsFolderNotFound (Folder_ID subfolder)
                                     (map Folder_Name listing))\<rparr>],
                 failedCount := failedCount a0 + 1,
                 failedClients := failedClients a0 @ [Folder_Name subfolder]\<rparr>) w1"
    by (simp add: record_status_def)
qed

text \<open>On the example: the client \<^verbatim>\<open>gamma\<close>, whose folder holds \<^verbatim>\<open>data\<close> only.\<close>

theorem errored_status_counts_as_failed_witness:
  "checkPaths (NewClient ''tok'') [''p0'', ''p1''] emptyAggregate ex_world =
     (None, ex_aggregate, ex_world\<lparr>tick := 13, events := ex_requests\<rparr>)
   \<and> ex_gamma \<in> set (statuses ex_aggregate)
   \<and> Error ex_gamma = Some (SnapshotsFolderNotFound ''c'' [''data''])
   \<and> \<not> HasBackup ex_gamma \<and> FileCount ex_gamma = 0
   \<and> ClientName ex_gamma \<in> set (failedClients ex_aggregate)
   \<and> successCount ex_aggregate = length [ex_alpha]
   \<and> GetSubfolders (NewClient ''tok'') ''c'' ex_world =
        (Returned (Inr [\<lparr>Folder_ID = ''cd'', Folder_Name = ''data'', Folder_Size = 0\<rparr>]),
         ex_world\<lparr>tick := 1, events := [GraphRequest ''tok'' (ex_url ''c'')]\<rparr>)
   \<and> checkClients (NewClient ''tok'')
        [\<lparr>Folder_ID = ''c'', Folder_Name = ''gamma'', Folder_Size = 0\<rparr>] emptyAggregate ex_world =
        (None,
         \<lparr>statuses = [ex_gamma], successCount = 0, failedCount = 1, failedClients = [''gamma'']\<rparr>,
         ex_world\<lparr>tick := 1, events := [GraphRequest ''tok'' (ex_url ''c'')]\<rparr>)"
proof -
  have h: "GetSubfolders (NewClient ''tok'') ''c'' ex_world =
        (Returned (Inr [\<lparr>Folder_ID = ''cd'', Folder_Name = ''data'', Folder_Size = 0\<rparr>]),
         ex_world\<lparr>tick := 1, events := [GraphRequest ''tok'' (ex_url ''c'')]\<rparr>)"
    by (simp add: ex_defs client_defs ex_url_def)
  show ?thesis
    using errored_status_counts_as_failed [of "NewClient ''tok''" "[''p0'', ''p1'']" ex_world
        None ex_aggregate "ex_world\<lparr>tick := 13, events := ex_requests\<rparr>" ex_gamma
        "\<lparr>Folder_ID = ''c'', Folder_Name = ''gamma'', Folder_Size = 0\<rparr>" ex_world
        "[\<lparr>Folder_ID = ''cd'', Folder_Name = ''data'', Folder_Size = 0\<rparr>]"
        "ex_world\<lparr>tick := 1, events := [GraphRequest ''tok'' (ex_url ''c'')]\<rparr>" "[]" emptyAggregate]
      ex_run h
    by (simp add: ex_aggregate_def ex_alpha_def ex_beta_def ex_gamma_def emptyAggregate_def zeroTime_def)
qed

text \<open>
  Claim C4, amended. When the freshness check of a client succeeds and the listing of
  its snapshots that follows succeeds too, the reported last-backup time is the
  greatest of the zero Time and the creation times of all the files listed, fresh or
  not. So it is the greatest creation time as soon as one file was created after the
  zero Time, and it is the zero Time exactly when no listed file was created after
  the zero Time, which includes the empty listing. It is the same for every
  permutation of the listing.
\<close>

theorem last_backup_is_latest_after_zero:
  assumes "CheckTodayBackups client folderID w = (Returned (hasBackup, recent, None), w1)"
    and "GetAllSnapshots client folderID w1 = (Returned (Inr allFiles), w2)"
    and "checkClientBackup client folderID clientName w = (Returned status, w')"
  shows "LastBackup status = Max (insert zeroTime (CreatedTime ` set allFiles))
       \<and> ((\<exists>file \<in> set allFiles. After (CreatedTime file) zeroTime) \<longrightarrow>
            LastBackup status = Max (CreatedTime ` set allFiles))
       \<and> (IsZero (LastBackup status) \<longleftrightarrow>
            (\<forall>file \<in> set allFiles. \<not> After (CreatedTime file) zeroTime))
       \<and> (\<forall>allFiles'. mset allFiles' = mset allFiles \<longrightarrow>
            latestBackup zeroTime allFiles' = LastBackup status)"
proof -
  have l: "LastBackup status = latestBackup zeroTime allFiles"
    using assms by (auto simp: checkClientBackup_def Let_def)
  then have m: "LastBackup status = Max (insert zeroTime (CreatedTime ` set allFiles))"
    by (simp add: latestBackup_Max)
  have fin: "finite (CreatedTime ` set allFiles)" by simp
  have a: "LastBackup status = Max (CreatedTime ` set allFiles)"
    if "\<exists>file \<in> set allFiles. After (CreatedTime file) zeroTime"
  proof -
    from that obtain snapshot where f: "snapshot \<in> set allFiles" "zeroTime < CreatedTime snapshot"
      by (auto simp: After_def)
    then have ne: "CreatedTime ` set allFiles \<noteq> {}" by auto
    have "CreatedTime snapshot \<le> Max (CreatedTime ` set allFiles)"
      using f fin by simp
    then have "zeroTime \<le> Max (CreatedTime ` set allFiles)" using f(2) by linarith
    then show ?thesis using m ne fin by (simp add: max_def)
  qed
  have z: "IsZero (LastBackup status) \<longleftrightarrow> (\<forall>file \<in> set allFiles. \<not> After (CreatedTime file) zeroTime)"
  proof (cases "set allFiles = {}")
    case True
    then show ?thesis using m by (simp add: IsZero_def zeroTime_def)
  next
    case False
    then have ne: "CreatedTime ` set allFiles \<noteq> {}" by simp
    have "Max (insert zeroTime (CreatedTime ` set allFiles)) = max zeroTime (Max (CreatedTime ` set allFiles))"
      using ne fin by simp
    then have "IsZero (LastBackup status) \<longleftrightarrow> Max (CreatedTime ` set allFiles) \<le> zeroTime"
      using m by (auto simp: IsZero_def zeroTime_def max_def)
    also have "\<dots> \<longleftrightarrow> (\<forall>t \<in> CreatedTime ` set allFiles. t \<le> zeroTime)"
      by (rule Max_le_iff [OF fin ne])
    finally show ?thesis by (auto simp: After_def)
  qed
  have p: "\<forall>allFiles'. mset allFiles' = mset allFiles \<longrightarrow>
            latestBackup zeroTime allFiles' = LastBackup status"
  proof (intro allI impI)
    fix allFiles'
    assume "mset allFiles' = mset allFiles"
    then have "latestBackup zeroTime allFiles' = latestBackup zeroTime allFiles"
      by (rule latestBackup_permutation)
    then show "latestBackup zeroTime allFiles' = LastBackup status" using l by simp
  qed
  show ?thesis
  proof (intro conjI impI)
    show "LastBackup status = Max (insert zeroTime (CreatedTime ` set allFiles))" by (rule m)
    show "LastBackup status = Max (CreatedTime ` set allFiles)"
      if "\<exists>file \<in> set allFiles. After (CreatedTime file) zeroTime"
      using that by (rule a)
    show "IsZero (LastBackup status) \<longleftrightarrow>
            (\<forall>file \<in> set allFiles. \<not> After (CreatedTime file) zeroTime)" by (rule z)
    show "\<forall>allFiles'. mset allFiles' = mset allFiles \<longrightarrow>
            latestBackup zeroTime allFiles' = LastBackup status" by (rule p)
  qed
qed

text \<open>
  On the example: \<^verbatim>\<open>beta\<close> has no fresh file, and its last backup is the snapshot of
  three days before, in either order of the listing.
\<close>

theorem last_backup_is_latest_after_zero_witness:
  "CheckTodayBackups (NewClient ''tok'') ''b'' ex_world = (Returned (False, [], None), ex_world_b)
   \<and> GetAllSnapshots (NewClient ''tok'') ''b'' ex_world_b = (Returned (Inr [ex_g1, ex_g2]), ex_world_b2)
   \<and> checkClientBackup (NewClient ''tok'') ''b'' ''beta'' ex_world = (Returned ex_beta, ex_world_b2)
   \<and> After (CreatedTime ex_g1) zeroTime
   \<and> LastBackup ex_beta = CreatedTime ex_g1
   \<and> \<not> IsZero (LastBackup ex_beta)
   \<and> mset [ex_g2, ex_g1] = mset [ex_g1, ex_g2]
   \<and> latestBackup zeroTime [ex_g2, ex_g1] = LastBackup ex_beta"
proof -
  have h1: "CheckTodayBackups (NewClient ''tok'') ''b'' ex_world = (Returned (False, [], None), ex_world_b)"
    by (simp add: ex_defs client_defs ex_world_b_def ex_url_def)
  have h2: "GetAllSnapshots (NewClient ''tok'') ''b'' ex_world_b = (Returned (Inr [ex_g1, ex_g2]), ex_world_b2)"
    by (simp add: ex_defs client_defs ex_world_b_def ex_world_b2_def ex_url_def ex_g1_def ex_g2_def)
  have h3: "checkClientBackup (NewClient ''tok'') ''b'' ''beta'' ex_world = (Returned ex_beta, ex_world_b2)"
    using h1 h2 by (simp add: checkClientBackup_def ex_beta_def ex_g1_def ex_g2_def After_def zeroTime_def T0_def Hour_def Minute_def Second_def)
  have p: "mset [ex_g2, ex_g1] = mset [ex_g1, ex_g2]" by (simp add: add.commute)
  have a: "After (CreatedTime ex_g1) zeroTime"
    by (simp add: ex_g1_def After_def zeroTime_def T0_def Hour_def Minute_def Second_def)
  then have e: "\<exists>file \<in> set [ex_g1, ex_g2]. After (CreatedTime file) zeroTime" by simp
  have mx: "Max (CreatedTime ` set [ex_g1, ex_g2]) = CreatedTime ex_g1"
    by (simp add: ex_g1_def ex_g2_def zeroTime_def T0_def Hour_def Minute_def Second_def)
  note t = last_backup_is_latest_after_zero [OF h1 h2 h3]
  from t e have "LastBackup ex_beta = Max (CreatedTime ` set [ex_g1, ex_g2])" by blast
  then have l: "LastBackup ex_beta = CreatedTime ex_g1" using mx by simp
  from t e have z: "\<not> IsZero (LastBackup ex_beta)" by blast
  from t p have q: "latestBackup zeroTime [ex_g2, ex_g1] = LastBackup ex_beta" by blast
  show ?thesis
    using h1 h2 h3 a l z p q by blast
qed

text \<open>
  The claim as stated has the last-backup time absent exactly when the listing is
  empty. The snapshots folder of the client folder \<^verbatim>\<open>d\<close> lists one file, whose
  creation time the response does not give; the check succeeds and the last-backup
  time is the zero Time.
\<close>

theorem last_backup_zero_for_nonempty_listing_counterexample:
  "fst (GetAllSnapshots (NewClient ''tok'') ''d'' ex_world) = Returned (Inr [ex_h1])
   \<and> [ex_h1] \<noteq> []
   \<and> fst (checkClientBackup (NewClient ''tok'') ''d'' ''delta'' ex_world) = Returned ex_delta
   \<and> Error ex_delta = None
   \<and> IsZero (LastBackup ex_delta)"
  by (simp add: ex_defs client_defs monitor_defs ex_h1_def ex_delta_def IsZero_def)

text \<open>
  Claim C5, amended. With no expiry recorded, \<^verbatim>\<open>refreshTokenIfNeeded\<close> fails with the
  error \<^verbatim>\<open>no token expiry set\<close> and touches nothing: neither the clock nor the token
  endpoint. Otherwise, when the recorded expiry is at most 9223371974719179007 seconds
  of the Unix epoch (the last second that \<^verbatim>\<open>time.Unix\<close> can place without its 64-bit
  count of seconds wrapping around), it returns without an error, with the monitor
  unchanged and nothing but the clock read (which sends nothing), if and only if the
  expiry lies more than ten minutes after the instant read; when it does not, the
  outcome is that of \<^verbatim>\<open>Authenticator.RefreshToken\<close>, and with a refresh token stored
  exactly one request goes to the token endpoint.
\<close>

theorem refresh_skipped_iff_margin_exceeded:
  assumes "Now w = (now, w1)"
  shows "events w1 = events w
       \<and> (TokenExpiry (OneDrive (config m)) = 0 \<longrightarrow>
            refreshTokenIfNeeded m w = (Some NoTokenExpirySet, m, w))
       \<and> (TokenExpiry (OneDrive (config m)) \<noteq> 0 \<longrightarrow>
          sint (TokenExpiry (OneDrive (config m))) \<le> 9223371974719179007 \<longrightarrow>
            (refreshTokenIfNeeded m w = (None, m, w1) \<longleftrightarrow>
               10 * Minute < timeFrom now (unixInstant (sint (TokenExpiry (OneDrive (config m))))))
          \<and> (\<not> 10 * Minute < timeFrom now (unixInstant (sint (TokenExpiry (OneDrive (config m))))) \<longrightarrow>
               fst (refreshTokenIfNeeded m w) =
                 (case fst (Authenticator_RefreshToken
                        \<lparr>Token_AccessToken = AccessToken (OneDrive (config m)),
                         Token_RefreshToken = RefreshToken (OneDrive (config m)),
                         Token_TokenType = '''',
                         Token_Expiry = time_Unix (TokenExpiry (OneDrive (config m)))\<rparr> w1) of
                    Inl err \<Rightarrow> Some (FailedToRefreshToken err)
                  | Inr newToken \<Rightarrow> None)
               \<and> (RefreshToken (OneDrive (config m)) \<noteq> '''' \<longrightarrow>
                    filter is_refresh (events (snd (snd (refreshTokenIfNeeded m w)))) =
                      filter is_refresh (events w) @ [TokenRequest (RefreshToken (OneDrive (config m)))])))"
proof -
  let ?s = "sint (TokenExpiry (OneDrive (config m)))"
  let ?expiry = "time_Unix (TokenExpiry (OneDrive (config m)))"
  have zero: "TokenExpiry (OneDrive (config m)) = 0 \<longrightarrow>
            refreshTokenIfNeeded m w = (Some NoTokenExpirySet, m, w)"
    using refreshTokenIfNeeded_cases [OF assms, of m] by blast
  have rest: "(refreshTokenIfNeeded m w = (None, m, w1) \<longleftrightarrow> 10 * Minute < timeFrom now (unixInstant ?s))
          \<and> (\<not> 10 * Minute < timeFrom now (unixInstant ?s) \<longrightarrow>
               fst (refreshTokenIfNeeded m w) =
                 (case fst (Authenticator_RefreshToken
                        \<lparr>Token_AccessToken = AccessToken (OneDrive (config m)),
                         Token_RefreshToken = RefreshToken (OneDrive (config m)),
                         Token_TokenType = '''',
                         Token_Expiry = time_Unix (TokenExpiry (OneDrive (config m)))\<rparr> w1) of
                    Inl err \<Rightarrow> Some (FailedToRefreshToken err)
                  | Inr newToken \<Rightarrow> None)
               \<and> (RefreshToken (OneDrive (config m)) \<noteq> '''' \<longrightarrow>
                    filter is_refresh (events (snd (snd (refreshTokenIfNeeded m w)))) =
                      filter is_refresh (events w) @ [TokenRequest (RefreshToken (OneDrive (config m)))]))"
    if nz: "TokenExpiry (OneDrive (config m)) \<noteq> 0" and range: "?s \<le> 9223371974719179007"
  proof -
    have lo: "- (2 ^ 63) \<le> ?s"
      using sint_ge [of "TokenExpiry (OneDrive (config m))"] by simp
    have hi: "?s + 62135596800 < 2 ^ 63" using range by simp
    have "?expiry = unixInstant ?s" using hi by (rule time_Unix_in_range)
    then have "Add ?expiry (- 10 * Minute) = unixInstant ?s - 10 * Minute"
      using Add_margin_in_range [OF lo hi] by simp
    then have margin: "Before now (Add ?expiry (- 10 * Minute)) \<longleftrightarrow>
        10 * Minute < timeFrom now (unixInstant ?s)"
      by (auto simp: Before_def timeFrom_def)
    show ?thesis
      using refreshTokenIfNeeded_cases [OF assms, of m] nz margin by blast
  qed
  have e1: "events w1 = events w" using assms by (auto simp: Now_def)
  show ?thesis
    using e1 zero rest by blast
qed

text \<open>
  On the example: no expiry; an expiry twenty minutes ahead (no refresh); an expiry
  five minutes ahead (a refresh, which fails as the token endpoint cannot be reached).
\<close>

theorem refresh_skipped_iff_margin_exceeded_witness:
  "Now ex_world = (T0 + Minute, ex_world\<lparr>tick := 1\<rparr>)
   \<and> refreshTokenIfNeeded (ex_monitor 0 []) ex_world = (Some NoTokenExpirySet, ex_monitor 0 [], ex_world)
   \<and> sint (1714004460 :: int64) \<le> 9223371974719179007
   \<and> timeFrom (T0 + Minute) (unixInstant (sint (1714004460 :: int64))) = 20 * Minute
   \<and> refreshTokenIfNeeded (ex_monitor 1714004460 []) ex_world =
        (None, ex_monitor 1714004460 [], ex_world\<lparr>tick := 1\<rparr>)
   \<and> sint (1714003560 :: int64) \<le> 9223371974719179007
   \<and> timeFrom (T0 + Minute) (unixInstant (sint (1714003560 :: int64))) = 5 * Minute
   \<and> refreshTokenIfNeeded (ex_monitor 1714003560 []) ex_world \<noteq>
        (None, ex_monitor 1714003560 [], ex_world\<lparr>tick := 1\<rparr>)
   \<and> filter is_refresh (events (snd (snd (refreshTokenIfNeeded (ex_monitor 1714003560 []) ex_world)))) =
        [TokenRequest ''ref'']
   \<and> fst (refreshTokenIfNeeded (ex_monitor 1714003560 []) ex_world) =
        Some (FailedToRefreshToken (FailedToRefreshToken (LibError ''offline'')))"
proof -
  have s: "sint (1714004460 :: int64) = 1714004460" "sint (1714003560 :: int64) = 1714003560"
    by simp_all
  have d20: "timeFrom (T0 + Minute) (unixInstant 1714004460) = 20 * Minute"
    and d5: "timeFrom (T0 + Minute) (unixInstant 1714003560) = 5 * Minute"
    by (simp_all add: timeFrom_def unixInstant_def T0_def Hour_def Minute_def Second_def)
  have m: "(10 * Minute < 20 * Minute) = True" "(10 * Minute < 5 * Minute) = False"
    by (simp_all add: Minute_def Second_def)
  have r: "fst (Authenticator_RefreshToken
                        \<lparr>Token_AccessToken = ''tok'', Token_RefreshToken = ''ref'',
                         Token_TokenType = '''', Token_Expiry = time_Unix 1714003560\<rparr>
                        (ex_world\<lparr>tick := 1\<rparr>)) = Inl (FailedToRefreshToken (LibError ''offline''))"
    by (simp add: Authenticator_RefreshToken_def ex_world_def)
  show ?thesis
    using refresh_skipped_iff_margin_exceeded [OF ex_Now, of "ex_monitor 0 []"]
      refresh_skipped_iff_margin_exceeded [OF ex_Now, of "ex_monitor 1714004460 []"]
      refresh_skipped_iff_margin_exceeded [OF ex_Now, of "ex_monitor 1714003560 []"]
      ex_Now d20 d5 r
    by (simp add: ex_monitor_defs m s ex_world_def)
qed

text \<open>
  The claim as stated holds for every recorded expiry. \<^verbatim>\<open>TokenExpiry\<close> is a 64-bit
  count of seconds, and \<^verbatim>\<open>time.Unix\<close> adds to it the 62135596800 seconds between year
  1 and 1970 in 64-bit arithmetic: for the largest count the sum wraps to an instant
  long before the clock's, so that the expiry, which as a count of seconds lies far
  more than ten minutes after the instant read, is taken for passed and the token
  endpoint is called.
\<close>

theorem refresh_invoked_beyond_time_range_counterexample:
  "TokenExpiry (OneDrive (config (ex_monitor 9223372036854775807 []))) = 9223372036854775807
   \<and> Now ex_world = (T0 + Minute, ex_world\<lparr>tick := 1\<rparr>)
   \<and> 10 * Minute < timeFrom (T0 + Minute) (unixInstant (sint (9223372036854775807 :: int64)))
   \<and> refreshTokenIfNeeded (ex_monitor 9223372036854775807 []) ex_world \<noteq>
        (None, ex_monitor 9223372036854775807 [], ex_world\<lparr>tick := 1\<rparr>)
   \<and> filter is_refresh (events (snd (snd (refreshTokenIfNeeded (ex_monitor 9223372036854775807 []) ex_world)))) =
        [TokenRequest ''ref'']"
proof -
  have w: "sint ((9223372036854775807 :: int64) + 62135596800) = - 9223371974719179009"
    by simp
  have d: "10 * Minute < timeFrom (T0 + Minute) (unixInstant (sint (9223372036854775807 :: int64)))"
    by (simp add: timeFrom_def unixInstant_def T0_def Hour_def Minute_def Second_def)
  have r: "refreshTokenIfNeeded (ex_monitor 9223372036854775807 []) ex_world =
      (Some (FailedToRefreshToken (FailedToRefreshToken (LibError ''offline''))),
       ex_monitor 9223372036854775807 [], ex_world\<lparr>tick := 2, events := [TokenRequest ''ref'']\<rparr>)"
    by (simp add: refreshTokenIfNeeded_def Authenticator_RefreshToken_def ex_monitor_defs Now_def
          ex_world_def w Before_def Add_def time_Unix_def unixToInternal_def maxInt64_def minInt64_def
          T0_def Hour_def Minute_def Second_def)
  show ?thesis
    using d r ex_Now by (simp add: is_refresh_def ex_monitor_defs)
qed

text \<open>
  Claim C6. When the refresh step fails, \<^verbatim>\<open>CheckOnce\<close> returns that error, wrapped,
  in the state the refresh step left: the monitor is unchanged, and no request to the
  storage and no Telegram message has been added to what was sent before. No path is
  listed and no status is produced, since the cycle ends there.
\<close>

theorem refresh_failure_aborts_cycle:
  assumes "refreshTokenIfNeeded m w = (Some err, m1, w1)"
  shows "CheckOnce m w = (Returned (Some (FailedToRefreshToken err)), m1, w1)
       \<and> m1 = m
       \<and> filter is_storage (events w1) = filter is_storage (events w)
       \<and> filter is_notification (events w1) = filter is_notification (events w)"
proof -
  have "filter is_storage (events (snd (snd (refreshTokenIfNeeded m w)))) = filter is_storage (events w)"
    by (rule refreshTokenIfNeeded_filter) (simp_all add: is_storage_def)
  moreover have "filter is_notification (events (snd (snd (refreshTokenIfNeeded m w)))) =
      filter is_notification (events w)"
    by (rule refreshTokenIfNeeded_filter) (simp_all add: is_notification_def)
  ultimately show ?thesis
    using assms refreshTokenIfNeeded_monitor_on_error [OF assms]
    by (simp add: CheckOnce_def)
qed

text \<open>
  On the example: a monitor that never authenticated, and one whose token expires in
  five minutes while the token endpoint cannot be reached.
\<close>

theorem refresh_failure_aborts_cycle_witness:
  "refreshTokenIfNeeded (ex_monitor 0 [''p0'', ''p1'']) ex_world =
     (Some NoTokenExpirySet, ex_monitor 0 [''p0'', ''p1''], ex_world)
   \<and> CheckOnce (ex_monitor 0 [''p0'', ''p1'']) ex_world =
     (Returned (Some (FailedToRefreshToken NoTokenExpirySet)), ex_monitor 0 [''p0'', ''p1''], ex_world)
   \<and> events ex_world = []
   \<and> refreshTokenIfNeeded (ex_monitor 1714003560 [''p0'', ''p1'']) ex_world =
     (Some (FailedToRefreshToken (FailedToRefreshToken (LibError ''offline''))),
      ex_monitor 1714003560 [''p0'', ''p1''], ex_world\<lparr>tick := 2, events := [TokenRequest ''ref'']\<rparr>)
   \<and> CheckOnce (ex_monitor 1714003560 [''p0'', ''p1'']) ex_world =
     (Returned (Some (FailedToRefreshToken (FailedToRefreshToken (FailedToRefreshToken (LibError ''offline''))))),
      ex_monitor 1714003560 [''p0'', ''p1''], ex_world\<lparr>tick := 2, events := [TokenRequest ''ref'']\<rparr>)
   \<and> filter is_storage [TokenRequest ''ref''] = []
   \<and> filter is_notification [TokenRequest ''ref''] = []"
proof -
  have h0: "refreshTokenIfNeeded (ex_monitor 0 [''p0'', ''p1'']) ex_world =
     (Some NoTokenExpirySet, ex_monitor 0 [''p0'', ''p1''], ex_world)"
    by (simp add: refreshTokenIfNeeded_def ex_monitor_defs)
  have h5: "refreshTokenIfNeeded (ex_monitor 1714003560 [''p0'', ''p1'']) ex_world =
     (Some (FailedToRefreshToken (FailedToRefreshToken (LibError ''offline''))),
      ex_monitor 1714003560 [''p0'', ''p1''], ex_world\<lparr>tick := 2, events := [TokenRequest ''ref'']\<rparr>)"
    by (simp add: refreshTokenIfNeeded_def Authenticator_RefreshToken_def ex_monitor_defs Now_def
          ex_world_def ex_time_defs)
  show ?thesis
    using refresh_failure_aborts_cycle [OF h0] refresh_failure_aborts_cycle [OF h5] h0 h5
    by (simp add: ex_world_def is_storage_def is_notification_def)
qed

text \<open>
  Claim C7, amended. In a cycle of a monitor whose Telegram client was created (it is
  not nil and holds a bot) and whose refresh step succeeds, no message is sent while
  the token is refreshed and the paths are checked; then one alert is sent for each
  status that has an error or no backup, in the order of the statuses, with the
  client name, the folder and the last-backup time or \<^verbatim>\<open>Unknown\<close> when that is the
  zero Time; then one summary with the number of statuses, the two counts and the
  failed-client list, which names the clients of those same statuses. A message
  counts as sent when it is handed to the bot API, whether or not that succeeds.
\<close>

theorem alerts_then_one_summary:
  assumes "telegram m = Some tg" and "bot tg = Some b"
    and "refreshTokenIfNeeded m w = (None, m1, w1)"
    and "checkPaths (NewClient (AccessToken (OneDrive (config m1))))
           (MonitorPaths (OneDrive (config m1))) emptyAggregate w1 = (None, a, w2)"
    and "CheckOnce m w = (r, m', w')"
  shows "r = Returned None
       \<and> filter is_notification (events w2) = filter is_notification (events w)
       \<and> events w' = events w2
            @ map (\<lambda>status. TelegramSent (chatID tg)
                     (BackupAlert (ClientName status) (FolderPath status)
                        (if IsZero (LastBackup status) then Unknown
                         else Formatted (LastBackup status))))
                  (filter (\<lambda>status. Error status \<noteq> None \<or> \<not> HasBackup status) (statuses a))
            @ [TelegramSent (chatID tg)
                 (SummaryReport (length (statuses a)) (successCount a) (failedCount a)
                    (failedClients a))]
       \<and> failedClients a =
           map ClientName (filter (\<lambda>status. Error status \<noteq> None \<or> \<not> HasBackup status) (statuses a))"
proof -
  have tg: "telegram m1 = Some tg"
    using refreshTokenIfNeeded_telegram [of m w] assms(1,3) by simp
  have stale: "list_all errored_is_stale (statuses a)"
    using checkPaths_errored_is_stale [of emptyAggregate "NewClient (AccessToken (OneDrive (config m1)))"
        "MonitorPaths (OneDrive (config m1))" w1] assms(4)
    by (simp add: emptyAggregate_def)
  have cons: "consistent a"
    using checkPaths_consistent [OF consistent_empty, of "NewClient (AccessToken (OneDrive (config m1)))"
        "MonitorPaths (OneDrive (config m1))" w1] assms(4)
    by simp
  have n1: "filter is_notification (events w1) = filter is_notification (events w)"
    using refreshTokenIfNeeded_filter [where P = is_notification, of m w] assms(3)
    by (simp add: is_notification_def)
  have n2: "filter is_notification (events w2) = filter is_notification (events w1)"
    using checkPaths_filter [where P = is_notification, of "NewClient (AccessToken (OneDrive (config m1)))"
        "MonitorPaths (OneDrive (config m1))" emptyAggregate w1] assms(4)
    by (simp add: is_notification_def)
  have lbl: "\<And>t. lastBackupStr t = (if IsZero t then Unknown else Formatted t)"
    by (simp add: lastBackupStr_def)
  have ev: "events (snd (sendNotifications m1 (statuses a) (successCount a) (failedCount a)
                      (failedClients a) w2)) =
           events w2 @ map (\<lambda>status. TelegramSent (chatID tg)
                              (BackupAlert (ClientName status) (FolderPath status)
                                 (lastBackupStr (LastBackup status))))
                          (filter (\<lambda>status. \<not> HasBackup status) (statuses a))
                    @ [TelegramSent (chatID tg)
                         (SummaryReport (length (statuses a)) (successCount a) (failedCount a)
                            (failedClients a))]"
    using tg assms(2) by (rule sendNotifications_events)
  have run: "r = Returned None" "w' = snd (sendNotifications m1 (statuses a) (successCount a) (failedCount a)
                      (failedClients a) w2)"
    using assms(3,4,5) by (auto simp: CheckOnce_def split: prod.splits)
  have fc: "failedClients a =
      map ClientName (filter (\<lambda>status. Error status \<noteq> None \<or> \<not> HasBackup status) (statuses a))"
    using cons failed_filter_eq [OF stale] by (simp add: consistent_def)
  show ?thesis
    using run ev n1 n2 fc failed_filter_eq(1) [OF stale] by (simp add: lbl)
qed

text \<open>
  On the example: with a bot API that refuses every alert, the alerts for \<^verbatim>\<open>beta\<close>
  and \<^verbatim>\<open>gamma\<close> and then the summary are sent; with no monitored path, the summary
  with three zeros is the only message.
\<close>

theorem alerts_then_one_summary_witness:
  "telegram (ex_monitor 1714004460 [''p0'', ''p1'']) = Some ex_telegram
   \<and> bot ex_telegram = Some (BotAPI ''bot'')
   \<and> refreshTokenIfNeeded (ex_monitor 1714004460 [''p0'', ''p1'']) ex_world_no_alerts =
       (None, ex_monitor 1714004460 [''p0'', ''p1''], ex_world_no_alerts\<lparr>tick := 1\<rparr>)
   \<and> checkPaths (NewClient ''tok'') [''p0'', ''p1''] emptyAggregate (ex_world_no_alerts\<lparr>tick := 1\<rparr>) =
       (None, ex_aggregate, ex_world_no_alerts\<lparr>tick := 14, events := ex_requests\<rparr>)
   \<and> fst (SendBackupAlert ex_telegram ''beta'' ''b'' (Formatted (T0 - 3 * 24 * Hour))
              (ex_world_no_alerts\<lparr>tick := 14, events := ex_requests\<rparr>)) =
       Some (FailedToSendTelegramMessage (LibError ''refused''))
   \<and> fst (CheckOnce (ex_monitor 1714004460 [''p0'', ''p1'']) ex_world_no_alerts) = Returned None
   \<and> events (snd (snd (CheckOnce (ex_monitor 1714004460 [''p0'', ''p1'']) ex_world_no_alerts))) =
       ex_requests @ ex_sent
   \<and> fst (CheckOnce (ex_monitor 1714004460 []) ex_world) = Returned None
   \<and> events (snd (snd (CheckOnce (ex_monitor 1714004460 []) ex_world))) =
       [TelegramSent 42 (SummaryReport 0 0 0 [])]"
proof -
  let ?m = "ex_monitor 1714004460 [''p0'', ''p1'']"
  let ?z = "ex_monitor 1714004460 []"
  let ?w = ex_world_no_alerts
  have h1: "telegram ?m = Some ex_telegram" and z1: "telegram ?z = Some ex_telegram"
    by (simp_all add: ex_monitor_def)
  have h2: "bot ex_telegram = Some (BotAPI ''bot'')" by (simp add: ex_telegram_def)
  have h3: "refreshTokenIfNeeded ?m ?w = (None, ?m, ?w\<lparr>tick := 1\<rparr>)"
    by (simp add: refreshTokenIfNeeded_def ex_monitor_defs Now_def ex_world_no_alerts_def
          ex_world_def ex_time_defs)
  have z3: "refreshTokenIfNeeded ?z ex_world = (None, ?z, ex_world\<lparr>tick := 1\<rparr>)"
    by (simp add: refreshTokenIfNeeded_def ex_monitor_defs Now_def ex_world_def ex_time_defs)
  have h4: "checkPaths (NewClient ''tok'') [''p0'', ''p1''] emptyAggregate (?w\<lparr>tick := 1\<rparr>) =
       (None, ex_aggregate, ?w\<lparr>tick := 14, events := ex_requests\<rparr>)"
    using ex_cycle [of "?w\<lparr>tick := 1\<rparr>"] by (simp add: ex_world_no_alerts_def ex_world_def)
  have c: "NewClient (AccessToken (OneDrive (config ?m))) = NewClient ''tok''"
    "MonitorPaths (OneDrive (config ?m)) = [''p0'', ''p1'']"
    "MonitorPaths (OneDrive (config ?z)) = []"
    by (simp_all add: ex_monitor_defs)
  have h4t: "checkPaths (NewClient (AccessToken (OneDrive (config ?m))))
       (MonitorPaths (OneDrive (config ?m))) emptyAggregate (?w\<lparr>tick := 1\<rparr>) =
       (None, ex_aggregate, ?w\<lparr>tick := 14, events := ex_requests\<rparr>)"
    by (simp only: c h4)
  have z4t: "checkPaths (NewClient (AccessToken (OneDrive (config ?z))))
       (MonitorPaths (OneDrive (config ?z))) emptyAggregate (ex_world\<lparr>tick := 1\<rparr>) =
       (None, emptyAggregate, ex_world\<lparr>tick := 1\<rparr>)"
    by (simp only: c checkPaths.simps)
  have f: "fst (SendBackupAlert ex_telegram ''beta'' ''b'' (Formatted (T0 - 3 * 24 * Hour))
              (?w\<lparr>tick := 14, events := ex_requests\<rparr>)) =
       Some (FailedToSendTelegramMessage (LibError ''refused''))"
    by (simp add: SendBackupAlert_def SendMessage_def ex_telegram_def ex_world_no_alerts_def ex_world_def)
  have h5: "CheckOnce ?m ?w = (fst (CheckOnce ?m ?w), fst (snd (CheckOnce ?m ?w)), snd (snd (CheckOnce ?m ?w)))"
    and z5: "CheckOnce ?z ex_world =
      (fst (CheckOnce ?z ex_world), fst (snd (CheckOnce ?z ex_world)), snd (snd (CheckOnce ?z ex_world)))"
    by simp_all
  have r1: "fst (CheckOnce ?m ?w) = Returned None
      \<and> events (snd (snd (CheckOnce ?m ?w))) = ex_requests @ ex_sent"
    using alerts_then_one_summary [OF h1 h2 h3 h4t h5]
    by (simp add: ex_aggregate_def ex_alpha_def ex_beta_def ex_gamma_def ex_sent_def ex_telegram_def
          IsZero_def zeroTime_def T0_def Hour_def Minute_def Second_def)
  have r2: "fst (CheckOnce ?z ex_world) = Returned None
      \<and> events (snd (snd (CheckOnce ?z ex_world))) = [TelegramSent 42 (SummaryReport 0 0 0 [])]"
    using alerts_then_one_summary [OF z1 h2 z3 z4t z5]
    by (simp add: emptyAggregate_def ex_telegram_def ex_world_def)
  show ?thesis
    using h1 h2 h3 h4 f r1 r2 by blast
qed

text \<open>
  The claim as stated has every completed cycle send exactly one summary. A monitor
  whose Telegram client is nil completes the cycle without an error and sends no
  message at all: \<^verbatim>\<open>sendNotifications\<close> returns at its first check.
\<close>

theorem no_summary_without_telegram_client_counterexample:
  "CheckOnce (ex_monitor_nil 1714004460 [''p0'', ''p1'']) ex_world =
     (Returned None, ex_monitor_nil 1714004460 [''p0'', ''p1''], ex_world\<lparr>tick := 14, events := ex_requests\<rparr>)
   \<and> filter is_summary ex_requests = []"
proof -
  have h3: "refreshTokenIfNeeded (ex_monitor_nil 1714004460 [''p0'', ''p1'']) ex_world =
      (None, ex_monitor_nil 1714004460 [''p0'', ''p1''], ex_world\<lparr>tick := 1\<rparr>)"
    by (simp add: refreshTokenIfNeeded_def ex_monitor_defs Now_def ex_world_def ex_time_defs)
  have h4: "checkPaths (NewClient ''tok'') [''p0'', ''p1''] emptyAggregate (ex_world\<lparr>tick := 1\<rparr>) =
      (None, ex_aggregate, ex_world\<lparr>tick := 14, events := ex_requests\<rparr>)"
    using ex_cycle [of "ex_world\<lparr>tick := 1\<rparr>"] by (simp add: ex_world_def)
  have c: "NewClient (AccessToken (OneDrive (config (ex_monitor_nil 1714004460 [''p0'', ''p1''])))) =
      NewClient ''tok''"
    "MonitorPaths (OneDrive (config (ex_monitor_nil 1714004460 [''p0'', ''p1'']))) = [''p0'', ''p1'']"
    "telegram (ex_monitor_nil 1714004460 [''p0'', ''p1'']) = None"
    by (simp_all add: ex_monitor_defs)
  have h4t: "checkPaths (NewClient (AccessToken (OneDrive (config (ex_monitor_nil 1714004460 [''p0'', ''p1''])))))
      (MonitorPaths (OneDrive (config (ex_monitor_nil 1714004460 [''p0'', ''p1''])))) emptyAggregate
      (ex_world\<lparr>tick := 1\<rparr>) =
      (None, ex_aggregate, ex_world\<lparr>tick := 14, events := ex_requests\<rparr>)"
    by (simp only: c h4)
  have "CheckOnce (ex_monitor_nil 1714004460 [''p0'', ''p1'']) ex_world =
     (Returned None, ex_monitor_nil 1714004460 [''p0'', ''p1''], ex_world\<lparr>tick := 14, events := ex_requests\<rparr>)"
    using h4t by (simp add: CheckOnce_def h3 sendNotifications_def c(3))
  moreover have "filter is_summary ex_requests = []"
    by (simp add: ex_requests_def is_summary_def)
  ultimately show ?thesis by simp
qed

text \<open>
  Claim C8. When listing the sub-folders of a monitored path fails, that path adds no
  status: the cycle goes on with the paths after it from the aggregate it had, and the
  statuses of the cycle are those of the earlier paths followed by those of the later
  paths.
\<close>

theorem failed_path_listing_is_skipped:
  assumes "checkPaths client earlier emptyAggregate w = (None, a1, w1)"
    and "GetSubfolders client folderID w1 = (Returned (Inl err), w2)"
  shows "checkPaths client (earlier @ folderID # later) emptyAggregate w = checkPaths client later a1 w2
       \<and> statuses (fst (snd (checkPaths client (earlier @ folderID # later) emptyAggregate w))) =
           statuses a1 @ statuses (fst (snd (checkPaths client later emptyAggregate w2)))"
proof -
  have "checkPaths client (earlier @ folderID # later) emptyAggregate w =
          checkPaths client (folderID # later) a1 w1"
    using assms(1) by (simp add: checkPaths_append)
  then have 1: "checkPaths client (earlier @ folderID # later) emptyAggregate w =
          checkPaths client later a1 w2"
    using assms(2) by simp
  show ?thesis
    using 1 checkPaths_statuses [of client later a1 w2] by simp
qed

text \<open>On the example: listing \<^verbatim>\<open>p0\<close> times out, and the three statuses of \<^verbatim>\<open>p1\<close> are there.\<close>

theorem failed_path_listing_is_skipped_witness:
  "checkPaths (NewClient ''tok'') [] emptyAggregate ex_world = (None, emptyAggregate, ex_world)
   \<and> GetSubfolders (NewClient ''tok'') ''p0'' ex_world =
        (Returned (Inl (RequestFailed (LibError ''timeout''))),
         ex_world\<lparr>tick := 1, events := [GraphRequest ''tok'' (ex_url ''p0'')]\<rparr>)
   \<and> statuses (fst (snd (checkPaths (NewClient ''tok'') [''p1''] emptyAggregate
         (ex_world\<lparr>tick := 1, events := [GraphRequest ''tok'' (ex_url ''p0'')]\<rparr>)))) =
        [ex_alpha, ex_beta, ex_gamma]
   \<and> statuses (fst (snd (checkPaths (NewClient ''tok'') ([] @ ''p0'' # [''p1'']) emptyAggregate ex_world))) =
        [ex_alpha, ex_beta, ex_gamma]"
proof -
  have h1: "checkPaths (NewClient ''tok'') [] emptyAggregate ex_world = (None, emptyAggregate, ex_world)"
    by simp
  have h2: "GetSubfolders (NewClient ''tok'') ''p0'' ex_world =
        (Returned (Inl (RequestFailed (LibError ''timeout''))),
         ex_world\<lparr>tick := 1, events := [GraphRequest ''tok'' (ex_url ''p0'')]\<rparr>)"
    by (simp add: ex_defs client_defs ex_url_def)
  show ?thesis
    using failed_path_listing_is_skipped [OF h1 h2, of "[''p1'']"] h1 h2 ex_run
    by (simp add: ex_aggregate_def emptyAggregate_def)
qed

text \<open>
  Claim C10, amended. When the refresh step succeeds and every folder or file item of
  the storage responses has a string \<^verbatim>\<open>id\<close> and a string \<^verbatim>\<open>name\<close>, \<^verbatim>\<open>CheckOnce\<close> returns,
  and returns no error; and an error that \<^verbatim>\<open>CheckOnce\<close> returns is the wrapped error
  of the refresh step.
\<close>

theorem check_fails_only_when_refresh_fails:
  "(fst (refreshTokenIfNeeded m w) = None \<longrightarrow> wellformed_graph w \<longrightarrow>
      fst (CheckOnce m w) = Returned None)
   \<and> (fst (CheckOnce m w) = Returned (Some e) \<longrightarrow>
        (\<exists>err. fst (refreshTokenIfNeeded m w) = Some err \<and> e = FailedToRefreshToken err))"
proof (intro conjI impI)
  assume ok: "fst (refreshTokenIfNeeded m w) = None" and wf: "wellformed_graph w"
  obtain m1 w1 where r: "refreshTokenIfNeeded m w = (None, m1, w1)"
    using ok by (cases "refreshTokenIfNeeded m w" rule: prod_cases3) simp
  have "graph w1 = graph w"
    using refreshTokenIfNeeded_graph [of m w] r by simp
  then have "wellformed_graph w1" using wf by (simp add: wellformed_graph_def)
  then have "fst (checkPaths (NewClient (AccessToken (OneDrive (config m1))))
                    (MonitorPaths (OneDrive (config m1))) emptyAggregate w1) = None"
    by (rule checkPaths_returns)
  then show "fst (CheckOnce m w) = Returned None"
    using r by (auto simp: CheckOnce_def split: prod.splits option.splits)
next
  assume "fst (CheckOnce m w) = Returned (Some e)"
  then show "\<exists>err. fst (refreshTokenIfNeeded m w) = Some err \<and> e = FailedToRefreshToken err"
    by (cases "refreshTokenIfNeeded m w" rule: prod_cases3)
       (auto simp: CheckOnce_def split: option.splits prod.splits)
qed

text \<open>
  On the example, with a bot API that refuses every message: listing \<^verbatim>\<open>p0\<close> fails,
  \<^verbatim>\<open>gamma\<close> has an error, \<^verbatim>\<open>beta\<close> is stale and sending the notifications fails, yet
  the check returns no error; the monitor that never authenticated gets the error of
  the refresh step.
\<close>

theorem check_fails_only_when_refresh_fails_witness:
  "fst (refreshTokenIfNeeded (ex_monitor 1714004460 [''p0'', ''p1'']) ex_world_no_bot) = None
   \<and> wellformed_graph ex_world_no_bot
   \<and> fst (sendNotifications (ex_monitor 1714004460 [''p0'', ''p1'']) (statuses ex_aggregate)
            (successCount ex_aggregate) (failedCount ex_aggregate) (failedClients ex_aggregate)
            (ex_world_no_bot\<lparr>tick := 14, events := ex_requests\<rparr>)) =
        Some (FailedToSendTelegramMessage (LibError ''refused''))
   \<and> fst (CheckOnce (ex_monitor 1714004460 [''p0'', ''p1'']) ex_world_no_bot) = Returned None
   \<and> fst (CheckOnce (ex_monitor 0 [''p0'', ''p1'']) ex_world_no_bot) =
        Returned (Some (FailedToRefreshToken NoTokenExpirySet))
   \<and> fst (refreshTokenIfNeeded (ex_monitor 0 [''p0'', ''p1'']) ex_world_no_bot) = Some NoTokenExpirySet"
proof -
  have h: "fst (refreshTokenIfNeeded (ex_monitor 1714004460 [''p0'', ''p1'']) ex_world_no_bot) = None"
    by (simp add: refreshTokenIfNeeded_def ex_monitor_defs Now_def ex_world_no_bot_def
          ex_world_def ex_time_defs)
  have wf: "wellformed_graph ex_world_no_bot"
    by (auto simp: wellformed_graph_def ex_world_no_bot_def ex_world_def ex_graph_def
          ex_folder_def ex_file_def item_ok_def split: if_splits)
  have s: "fst (sendNotifications (ex_monitor 1714004460 [''p0'', ''p1'']) (statuses ex_aggregate)
            (successCount ex_aggregate) (failedCount ex_aggregate) (failedClients ex_aggregate)
            (ex_world_no_bot\<lparr>tick := 14, events := ex_requests\<rparr>)) =
        Some (FailedToSendTelegramMessage (LibError ''refused''))"
    by (simp add: sendNotifications_def SendSummaryReport_def SendBackupAlert_def SendMessage_def
          ex_monitor_defs ex_world_no_bot_def ex_world_def ex_aggregate_def ex_alpha_def ex_beta_def
          ex_gamma_def)
  have h0: "fst (CheckOnce (ex_monitor 0 [''p0'', ''p1'']) ex_world_no_bot) =
        Returned (Some (FailedToRefreshToken NoTokenExpirySet))"
    by (simp add: CheckOnce_def refreshTokenIfNeeded_def ex_monitor_defs)
  show ?thesis
    using check_fails_only_when_refresh_fails [of "ex_monitor 1714004460 [''p0'', ''p1'']" ex_world_no_bot]
      check_fails_only_when_refresh_fails [of "ex_monitor 0 [''p0'', ''p1'']" ex_world_no_bot
        "FailedToRefreshToken NoTokenExpirySet"] h wf s h0
    by simp
qed

text \<open>
  The claim as stated has \<^verbatim>\<open>CheckOnce\<close> return no error whenever the refresh step
  succeeds. The client reads the \<^verbatim>\<open>id\<close> and the \<^verbatim>\<open>name\<close> of an item with type
  assertions that panic, and nothing recovers from a panic: when listing the monitored
  path \<^verbatim>\<open>p1\<close> answers with a folder that has no name, the refresh step has succeeded
  and \<^verbatim>\<open>CheckOnce\<close> does not return.
\<close>

theorem check_panics_on_unnamed_folder_counterexample:
  "fst (refreshTokenIfNeeded (ex_monitor 1714004460 [''p1'']) ex_world_unnamed) = None
   \<and> fst (CheckOnce (ex_monitor 1714004460 [''p1'']) ex_world_unnamed) = Panicked (NotAString ''name'')"
proof -
  have h: "refreshTokenIfNeeded (ex_monitor 1714004460 [''p1'']) ex_world_unnamed =
      (None, ex_monitor 1714004460 [''p1''], ex_world_unnamed\<lparr>tick := 1\<rparr>)"
    by (simp add: refreshTokenIfNeeded_def ex_monitor_defs Now_def ex_world_unnamed_def
          ex_world_def ex_time_defs)
  show ?thesis
    by (simp add: CheckOnce_def h) (simp add: ex_monitor_defs client_defs ex_world_unnamed_def ex_world_def)
qed

end
